theory Spec2Isabelle
  imports Main "HOL-Library.AList"
begin

section \<open>Guesscasso: the round controller of the Game component\<close>

text \<open>
  The model follows the React component \<open>Game\<close> (the third part of \<open>src/README.md\<close>,
  lines 72 to 413). The component's state variables, the two refs that mirror them for
  the timer callback, the values it reads from the game context and the pieces of its
  environment that the properties talk about (the live \<open>setInterval\<close> timers, the
  console and the requests sent to the evaluator) are the fields of one record. Every
  handler of the component is a function
  from state to state; an \<open>await\<close> splits a handler into the part before it and the part
  that runs when the request settles.
\<close>

subsection \<open>State\<close>

text \<open>\<open>gameState\<close> is one of \<open>'initial'\<close>, \<open>'loading'\<close>, \<open>'running'\<close>, \<open>'ended'\<close>.\<close>

datatype game_state = Initial | Loading | Running | Ended

text \<open>
  \<open>imageData.loaded\<close> is a JavaScript object keyed by the frame index; it is kept as an
  association list that is only ever changed by \<open>AList.update\<close>, so its keys are distinct
  and its length is \<open>Object.keys(imageData.loaded).length\<close>.
  \<open>intervals\<close> counts the timers created by \<open>setInterval\<close> and not yet cleared: every
  timer runs the same callback on the same refs and setters, so only their number matters.
  \<open>console\<close> collects the calls of \<open>console.error\<close>, one constructor for each of the
  three messages of the component. \<open>evaluateCalls\<close> collects the bodies
  \<open>(answer, userGuess)\<close> of the requests posted to \<open>/api/evaluate\<close>.
\<close>

datatype console_entry = ErrorFetchingImage | ErrorCheckingAnswer | FailedToLoadImage nat

record game =
  gameState :: game_state
  timeLeft :: int
  guess :: string
  currentImageIndex :: int
  images :: "string list"
  loaded :: "(nat \<times> bool) list"
  score :: int
  numRounds :: int
  categories :: "string list"
  correctWords :: "string list"
  isGameRunningRef :: bool
  timeLeftRef :: int
  intervals :: nat
  console :: "console_entry list"
  evaluateCalls :: "(string \<times> string) list"

text \<open>What the two external services answer: the parsed JSON body, or a failure of the
  request (\<open>fetch\<close> or \<open>response.json()\<close> throws). \<open>GenerateOk\<close> is a body with the
  lists \<open>images\<close>, \<open>categories\<close> and \<open>correctWords\<close>, of any lengths. \<open>EvaluateOk n\<close> is
  a body whose \<open>score\<close> is the number \<open>n\<close>.\<close>

datatype generate_response =
  GenerateOk "string list" "string list" "string list" | GenerateFailure

datatype evaluate_response = EvaluateOk int | EvaluateFailure

text \<open>How the promise of an \<open>async\<close> function settles.\<close>

datatype settled = Fulfilled | Rejected

definition TIME_PER_ROUND :: int where
  "TIME_PER_ROUND = 20"

definition NUM_IMAGES :: int where
  "NUM_IMAGES = 10"

subsection \<open>Derived state\<close>

definition isGameRunning :: "game \<Rightarrow> bool" where
  "isGameRunning s = (gameState s = Running)"

definition isLoading :: "game \<Rightarrow> bool" where
  "isLoading s = (gameState s = Loading)"

definition isGameEnded :: "game \<Rightarrow> bool" where
  "isGameEnded s = (gameState s = Ended)"

definition allImagesReady :: "game \<Rightarrow> bool" where
  "allImagesReady s =
     (if length (images s) = 0 then False
      else
        let loadedCount = length (map fst (loaded s));
            allLoaded = list_all (\<lambda>v. v) (map snd (loaded s))
        in loadedCount = length (images s) \<and> allLoaded)"

subsection \<open>The session store\<close>

text \<open>
  Modelled from the spec: the module \<open>./gameContext\<close> that provides \<open>addToScore\<close>,
  \<open>incrementRounds\<close>, \<open>updateCategories\<close> and \<open>updateCorrectWords\<close> is not among the
  sources. The spec's Session Store has \<open>addScore(delta)\<close> and \<open>incrementRound()\<close>, the
  round counter "increments once per round start", and the score and the round counter
  start at 0.
\<close>

definition addToScore :: "int \<Rightarrow> game \<Rightarrow> game" where
  "addToScore delta s = s\<lparr>score := score s + delta\<rparr>"

definition incrementRounds :: "game \<Rightarrow> game" where
  "incrementRounds s = s\<lparr>numRounds := numRounds s + 1\<rparr>"

definition updateCategories :: "string list \<Rightarrow> game \<Rightarrow> game" where
  "updateCategories cs s = s\<lparr>categories := cs\<rparr>"

definition updateCorrectWords :: "string list \<Rightarrow> game \<Rightarrow> game" where
  "updateCorrectWords ws s = s\<lparr>correctWords := ws\<rparr>"

subsection \<open>Rendering: the effects\<close>

text \<open>
  The timer effect (lines 152 to 183). Its callback returns nothing to React: the
  function that clears the timer is the result of the inner \<open>async\<close> function, so the
  effect has no cleanup and a timer is cleared only from inside its own callback.
\<close>

definition timerEffect :: "game \<Rightarrow> game" where
  "timerEffect s =
     (if \<not> isGameRunning s \<or> \<not> allImagesReady s then s
      else s\<lparr>intervals := intervals s + 1\<rparr>)"

text \<open>
  After the state changes React renders the component and runs its effects: the two
  effects that copy \<open>isGameRunning\<close> and \<open>timeLeft\<close> into the refs (lines 121 to 127),
  then the timer effect when one of its dependencies \<open>[isGameRunning, allImagesReady]\<close>
  differs from the previous render \<open>prev\<close>.
\<close>

definition rerender :: "game \<Rightarrow> game \<Rightarrow> game" where
  "rerender prev s =
     (let s1 = s\<lparr>isGameRunningRef := isGameRunning s, timeLeftRef := timeLeft s\<rparr>
      in if (isGameRunning s, allImagesReady s) \<noteq> (isGameRunning prev, allImagesReady prev)
         then timerEffect s1 else s1)"

subsection \<open>The frame index\<close>

text \<open>Lines 171 and 172: \<open>Math.floor\<close> of a quotient of integers is \<open>div\<close>.\<close>

definition newImageIndex :: "int \<Rightarrow> int" where
  "newImageIndex timeElapsed =
     (let divisor = TIME_PER_ROUND div NUM_IMAGES
      in min (timeElapsed div divisor) (NUM_IMAGES - 1))"

subsection \<open>Handlers\<close>

text \<open>\<open>startGame\<close> up to its \<open>await\<close> (lines 131 to 143).\<close>

definition startGame_begin :: "game \<Rightarrow> game" where
  "startGame_begin s =
     (let s1 = s\<lparr>gameState := Loading\<rparr>;
          s2 = s1\<lparr>timeLeft := TIME_PER_ROUND\<rparr>;
          s3 = incrementRounds s2;
          s4 = s3\<lparr>guess := []\<rparr>;
          s5 = s4\<lparr>currentImageIndex := 0\<rparr>;
          s6 = s5\<lparr>images := [], loaded := []\<rparr>;
          s7 = updateCategories [] s6
      in updateCorrectWords [] s7)"

text \<open>\<open>fetchImage\<close> once the request has settled (lines 186 to 203): the \<open>catch\<close> logs
  and throws again.\<close>

definition fetchImage :: "generate_response \<Rightarrow> game \<Rightarrow> settled \<times> game" where
  "fetchImage r s =
     (case r of
        GenerateOk imgs cats ws \<Rightarrow>
          (Fulfilled, updateCorrectWords ws (updateCategories cats (s\<lparr>images := imgs\<rparr>)))
      | GenerateFailure \<Rightarrow>
          (Rejected, s\<lparr>console := console s @ [ErrorFetchingImage]\<rparr>))"

text \<open>\<open>startGame\<close> after its \<open>await\<close> (lines 143 and 144): line 144 runs only when
  \<open>fetchImage\<close> did not throw.\<close>

definition startGame_resume :: "generate_response \<Rightarrow> game \<Rightarrow> settled \<times> game" where
  "startGame_resume r s =
     (case fetchImage r s of
        (Fulfilled, s1) \<Rightarrow> (Fulfilled, s1\<lparr>gameState := Running\<rparr>)
      | (Rejected, s1) \<Rightarrow> (Rejected, s1))"

definition stopGame :: "game \<Rightarrow> game" where
  "stopGame s = s\<lparr>gameState := Ended\<rparr>"

text \<open>The updater given to \<open>setTimeLeft\<close> (lines 161 to 168); \<open>clearInterval\<close> removes
  the timer whose callback is running.\<close>

definition timeLeftUpdater :: "game \<Rightarrow> game" where
  "timeLeftUpdater s =
     (if timeLeft s - 1 \<le> 0
      then (stopGame (s\<lparr>intervals := intervals s - 1\<rparr>))\<lparr>timeLeft := TIME_PER_ROUND\<rparr>
      else s\<lparr>timeLeft := timeLeft s - 1\<rparr>)"

text \<open>The callback of the timer (lines 156 to 174). It reads the refs, which hold the
  values of the last render.\<close>

definition intervalCallback :: "game \<Rightarrow> game" where
  "intervalCallback s =
     (if \<not> isGameRunningRef s then s\<lparr>intervals := intervals s - 1\<rparr>
      else
        let timeElapsed = TIME_PER_ROUND - timeLeftRef s
        in (timeLeftUpdater s)\<lparr>currentImageIndex := newImageIndex timeElapsed\<rparr>)"

text \<open>A template literal prints a missing array element as \<open>undefined\<close>.\<close>

definition wordAt :: "string list \<Rightarrow> nat \<Rightarrow> string" where
  "wordAt ws i = (if i < length ws then ws ! i else ''undefined'')"

text \<open>\<open>checkAnswer\<close> up to its \<open>await\<close> (lines 206 to 218): it posts the answer,
  made of the two correct words, and the guess.\<close>

definition checkAnswer_begin :: "string \<Rightarrow> game \<Rightarrow> game" where
  "checkAnswer_begin userGuess s =
     (let answer = wordAt (correctWords s) 0 @ '' '' @ wordAt (correctWords s) 1
      in s\<lparr>evaluateCalls := evaluateCalls s @ [(answer, userGuess)]\<rparr>)"

text \<open>\<open>checkAnswer\<close> once the request has settled (lines 219 to 227): the \<open>catch\<close> only
  logs, so the promise is fulfilled on every path.\<close>

definition checkAnswer :: "evaluate_response \<Rightarrow> game \<Rightarrow> settled \<times> game" where
  "checkAnswer r s =
     (case r of
        EvaluateOk data_score \<Rightarrow>
          (if data_score = 1
           then
             let additonalScore = timeLeftRef s * 10
             in (Fulfilled, stopGame (addToScore additonalScore s))
           else (Fulfilled, s))
      | EvaluateFailure \<Rightarrow>
          (Fulfilled, s\<lparr>console := console s @ [ErrorCheckingAnswer]\<rparr>))"

text \<open>\<open>handleAction\<close> (lines 230 to 234).\<close>

definition handleAction :: "string \<Rightarrow> game \<Rightarrow> game" where
  "handleAction submittedGuess s =
     (if isGameRunning s then checkAnswer_begin submittedGuess s else s)"

definition handleImageLoad :: "nat \<Rightarrow> game \<Rightarrow> game" where
  "handleImageLoad index s = s\<lparr>loaded := AList.update index True (loaded s)\<rparr>"

definition handleImageError :: "nat \<Rightarrow> game \<Rightarrow> game" where
  "handleImageError index s =
     (let s1 = s\<lparr>console := console s @ [FailedToLoadImage index]\<rparr>
      in s1\<lparr>loaded := AList.update index True (loaded s1)\<rparr>)"

subsection \<open>What the component shows\<close>

text \<open>The panel under the form (lines 374 to 407): nothing, the two categories, or the
  round-over message with the score and the correct words.\<close>

datatype info_panel = NoPanel | CategoriesPanel "string list" | RoundOverPanel int "string list"

definition infoPanel :: "game \<Rightarrow> info_panel" where
  "infoPanel s =
     (if length (images s) = 0 then NoPanel
      else if (isGameRunning s \<or> isLoading s) \<and> length (categories s) > 0
      then CategoriesPanel (categories s)
      else if isGameEnded s \<and> length (correctWords s) > 0
      then RoundOverPanel (score s) (correctWords s)
      else NoPanel)"

text \<open>The \<open>disabled\<close> attribute of the start button (line 360); the button is shown
  whenever the game is not running.\<close>

definition startButtonDisabled :: "game \<Rightarrow> bool" where
  "startButtonDisabled s = (isLoading s \<or> (length (images s) > 0 \<and> \<not> allImagesReady s))"

subsection \<open>Events\<close>

text \<open>
  What can happen to the mounted component: a click on the start image or button, the
  settling of the request to \<open>/api/generate\<close>, the \<open>onLoad\<close> or \<open>onError\<close> of a frame, a
  firing of a timer, a click on the stop button, typing into the input, the submission of
  the form, and the settling of a request to \<open>/api/evaluate\<close>. Each handler is followed
  by a render; the state updates that \<open>fetchImage\<close> and the rest of \<open>startGame\<close> make when
  the payload arrives are rendered together. A timer can fire only while one exists.
  The form submits the value of its input, which is \<open>guess\<close> (lines 334 to 346); the
  submission changes no state of the component, so nothing is rendered after it.
  \<open>handle\<close> runs the handler of an event; whether the control that raises the event is
  enabled is what \<open>startButtonDisabled\<close> and \<open>isGameRunning\<close> tell.
\<close>

datatype event =
  ClickStart
  | GenerateSettled generate_response
  | ImageLoad nat
  | ImageError nat
  | Tick
  | ClickStop
  | ChangeGuess string
  | Submit
  | EvaluateSettled evaluate_response

fun handle :: "event \<Rightarrow> game \<Rightarrow> game" where
  "handle ClickStart s = rerender s (startGame_begin s)"
| "handle (GenerateSettled r) s = rerender s (snd (startGame_resume r s))"
| "handle (ImageLoad i) s = rerender s (handleImageLoad i s)"
| "handle (ImageError i) s = rerender s (handleImageError i s)"
| "handle Tick s = (if intervals s = 0 then s else rerender s (intervalCallback s))"
| "handle ClickStop s = rerender s (stopGame s)"
| "handle (ChangeGuess g) s = rerender s (s\<lparr>guess := g\<rparr>)"
| "handle Submit s = handleAction (guess s) s"
| "handle (EvaluateSettled r) s = rerender s (snd (checkAnswer r s))"

definition run :: "event list \<Rightarrow> game \<Rightarrow> game" where
  "run es s = fold handle es s"

text \<open>The component as mounted: the initial values of lines 82 to 91 and of the refs,
  no timer, an empty console, no request sent.\<close>

definition initialGame :: game where
  "initialGame =
     \<lparr>gameState = Initial, timeLeft = TIME_PER_ROUND, guess = [], currentImageIndex = 0,
      images = [], loaded = [], score = 0, numRounds = 0, categories = [],
      correctWords = [], isGameRunningRef = False, timeLeftRef = TIME_PER_ROUND,
      intervals = 0, console = [], evaluateCalls = []\<rparr>"

text \<open>A state as a render leaves it: the refs hold the rendered values.\<close>

definition rendered :: "game \<Rightarrow> bool" where
  "rendered s = (isGameRunningRef s = isGameRunning s \<and> timeLeftRef s = timeLeft s)"

text \<open>
  The state of a round with the frames \<open>imgs\<close> in which the timer waits for the frames:
  the marks are for frames of the round, and as long as not all frames are ready the game
  is running, no timer exists and the time left is the full round time.
\<close>

definition waiting :: "string list \<Rightarrow> game \<Rightarrow> bool" where
  "waiting imgs t =
     (rendered t \<and> images t = imgs \<and> distinct (map fst (loaded t))
      \<and> list_all (\<lambda>v. v) (map snd (loaded t))
      \<and> fst ` set (loaded t) \<subseteq> {..<length imgs}
      \<and> (\<not> allImagesReady t \<longrightarrow>
            gameState t = Running \<and> intervals t = 0 \<and> timeLeft t = TIME_PER_ROUND))"

text \<open>
  The events of a player whose guesses are not accepted: typing into the input,
  submitting the form, and the settling of an evaluation with a failure or with a score
  other than 1.
\<close>

fun wrongGuess :: "event \<Rightarrow> bool" where
  "wrongGuess (ChangeGuess g) = True"
| "wrongGuess Submit = True"
| "wrongGuess (EvaluateSettled (EvaluateOk n)) = (n \<noteq> 1)"
| "wrongGuess (EvaluateSettled EvaluateFailure) = True"
| "wrongGuess _ = False"

text \<open>
  The state \<open>t\<close> of a round that was running in \<open>s\<close> with the full round time, after \<open>k\<close>
  firings of its timer and no accepted guess: the score, the correct words and the frames
  are those of \<open>s\<close>; before the 20th firing the game is running with \<open>k\<close> seconds gone,
  from the 20th firing on it is ended with the time left set back to the round time.
\<close>

definition afterTicks :: "game \<Rightarrow> nat \<Rightarrow> game \<Rightarrow> bool" where
  "afterTicks s k t =
     (rendered t \<and> score t = score s \<and> correctWords t = correctWords s \<and> images t = images s
      \<and> (if k < 20
          then gameState t = Running \<and> timeLeft t = TIME_PER_ROUND - int k
               \<and> intervals t = intervals s
          else gameState t = Ended \<and> timeLeft t = TIME_PER_ROUND \<and> currentImageIndex t = 9))"

subsection \<open>An example round\<close>

text \<open>A payload of ten frames, and a round that starts from the mounted component,
  receives the payload and sees all ten frames load.\<close>

definition examplePayload :: generate_response where
  "examplePayload =
     GenerateOk (replicate 10 ''frame.png'') [''animal'', ''fruit''] [''eagle'', ''banana'']"

definition exampleRound :: "event list" where
  "exampleRound = [ClickStart, GenerateSettled examplePayload] @ map ImageLoad [0..<10]"

text \<open>What happens in a round whose player guesses wrong after 7 seconds and submits the
  form once more after the 20th second: 21 firings of the timer and no accepted guess.\<close>

definition guessesAndTicks :: "event list" where
  "guessesAndTicks =
     replicate 7 Tick @ [ChangeGuess ''eagle apple'', Submit, EvaluateSettled (EvaluateOk 0)]
       @ replicate 13 Tick @ [Submit, Tick]"

section \<open>Properties\<close>

subsection \<open>Basic facts about the handlers\<close>

declare handle.simps [simp del]

lemmas handler_defs = rerender_def timerEffect_def intervalCallback_def timeLeftUpdater_def
  stopGame_def checkAnswer_def addToScore_def isGameRunning_def rendered_def Let_def

lemmas start_defs = startGame_begin_def startGame_resume_def fetchImage_def updateCategories_def
  updateCorrectWords_def incrementRounds_def

lemma run_Nil: "run [] s = s"
  by (simp add: run_def)

lemma run_Cons: "run (e # es) s = run es (handle e s)"
  by (simp add: run_def)

lemma run_append: "run (es @ es') s = run es' (run es s)"
  by (simp add: run_def)

lemma rerender_fields:
  "images (rerender p s) = images s"
  "loaded (rerender p s) = loaded s"
  "console (rerender p s) = console s"
  "gameState (rerender p s) = gameState s"
  "score (rerender p s) = score s"
  "timeLeft (rerender p s) = timeLeft s"
  "numRounds (rerender p s) = numRounds s"
  "guess (rerender p s) = guess s"
  "correctWords (rerender p s) = correctWords s"
  "categories (rerender p s) = categories s"
  by (simp_all add: rerender_def timerEffect_def Let_def)

lemma rerender_allImagesReady: "allImagesReady (rerender p s) = allImagesReady s"
  by (simp add: allImagesReady_def rerender_fields)

lemma rerender_rendered: "rendered (rerender p s)"
  by (simp add: rendered_def rerender_def timerEffect_def isGameRunning_def Let_def)

lemma rerender_same: "rendered s \<Longrightarrow> rerender s s = s"
  by (simp add: rendered_def rerender_def Let_def)

lemma allImagesReady_console: "allImagesReady (s\<lparr>console := c\<rparr>) = allImagesReady s"
  by (simp add: allImagesReady_def)

lemma rerender_console: "rendered s \<Longrightarrow> rerender s (s\<lparr>console := c\<rparr>) = s\<lparr>console := c\<rparr>"
  by (simp add: rerender_def rendered_def isGameRunning_def allImagesReady_console Let_def)

text \<open>Every state that the mounted component reaches is a rendered one.\<close>

lemma initialGame_rendered: "rendered initialGame"
  by (simp add: rendered_def initialGame_def isGameRunning_def)

lemma handleAction_rendered: "rendered s \<Longrightarrow> rendered (handleAction g s)"
  by (simp add: handleAction_def checkAnswer_begin_def rendered_def isGameRunning_def Let_def)

lemma handle_rendered: "rendered s \<Longrightarrow> rendered (handle e s)"
  by (cases e) (simp_all add: handle.simps rerender_rendered handleAction_rendered)

lemma run_rendered: "rendered s \<Longrightarrow> rendered (run es s)"
  by (induction es arbitrary: s) (simp_all add: run_Nil run_Cons handle_rendered)

text \<open>A render creates a timer only when the game is running and all frames are loaded,
  and without a timer nothing ticks.\<close>

lemma timer_created_only_when_ready:
  "intervals (rerender p s) = intervals s \<or>
     (isGameRunning s \<and> allImagesReady s \<and> intervals (rerender p s) = intervals s + 1)"
  by (simp add: rerender_def timerEffect_def isGameRunning_def allImagesReady_def Let_def)

lemma no_timer_no_tick: "intervals s = 0 \<Longrightarrow> handle Tick s = s"
  by (simp add: handle.simps)

subsection \<open>Ticks\<close>

lemma tick_ended:
  assumes "rendered s" "gameState s = Ended"
  shows "handle Tick s = s\<lparr>intervals := intervals s - 1\<rparr>"
  using assms by (cases s) (auto simp: handle.simps handler_defs)

lemma tick_running_more:
  assumes "rendered s" "gameState s = Running" "0 < intervals s" "1 < timeLeft s"
  shows "handle Tick s = s\<lparr>timeLeft := timeLeft s - 1, timeLeftRef := timeLeft s - 1,
            currentImageIndex := newImageIndex (TIME_PER_ROUND - timeLeft s)\<rparr>"
  using assms by (cases s) (auto simp: handle.simps handler_defs allImagesReady_def)

lemma tick_running_last:
  assumes "rendered s" "gameState s = Running" "0 < intervals s" "timeLeft s - 1 \<le> 0"
  shows "handle Tick s = s\<lparr>gameState := Ended, timeLeft := TIME_PER_ROUND,
            timeLeftRef := TIME_PER_ROUND, isGameRunningRef := False, intervals := intervals s - 1,
            currentImageIndex := newImageIndex (TIME_PER_ROUND - timeLeft s)\<rparr>"
  using assms by (cases s) (auto simp: handle.simps handler_defs allImagesReady_def)

lemma ticks_running:
  assumes "rendered s" "gameState s = Running" "0 < intervals s" "int k < timeLeft s"
  shows "rendered (run (replicate k Tick) s)
       \<and> gameState (run (replicate k Tick) s) = Running
       \<and> intervals (run (replicate k Tick) s) = intervals s
       \<and> timeLeft (run (replicate k Tick) s) = timeLeft s - int k
       \<and> score (run (replicate k Tick) s) = score s
       \<and> correctWords (run (replicate k Tick) s) = correctWords s
       \<and> images (run (replicate k Tick) s) = images s"
  using assms
proof (induction k arbitrary: s)
  case 0
  then show ?case by (simp add: run_Nil)
next
  case (Suc k)
  from Suc.prems have more: "1 < timeLeft s" by simp
  let ?t = "handle Tick s"
  have eq: "?t = s\<lparr>timeLeft := timeLeft s - 1, timeLeftRef := timeLeft s - 1,
            currentImageIndex := newImageIndex (TIME_PER_ROUND - timeLeft s)\<rparr>"
    using Suc.prems(1-3) more by (rule tick_running_more)
  have "rendered ?t" "gameState ?t = Running" "0 < intervals ?t" "int k < timeLeft ?t"
    using Suc.prems by (simp_all add: eq rendered_def isGameRunning_def)
  from Suc.IH [OF this] show ?case
    by (simp add: run_Cons eq)
qed

lemma ticks_ended:
  assumes "rendered s" "gameState s = Ended"
  shows "rendered (run (replicate n Tick) s)
       \<and> gameState (run (replicate n Tick) s) = Ended
       \<and> timeLeft (run (replicate n Tick) s) = timeLeft s
       \<and> score (run (replicate n Tick) s) = score s
       \<and> currentImageIndex (run (replicate n Tick) s) = currentImageIndex s
       \<and> correctWords (run (replicate n Tick) s) = correctWords s"
  using assms
proof (induction n arbitrary: s)
  case 0
  then show ?case by (simp add: run_Nil)
next
  case (Suc n)
  let ?t = "handle Tick s"
  have eq: "?t = s\<lparr>intervals := intervals s - 1\<rparr>"
    using Suc.prems by (rule tick_ended)
  have "rendered ?t" "gameState ?t = Ended"
    using Suc.prems by (simp_all add: eq rendered_def isGameRunning_def)
  from Suc.IH [OF this] show ?case
    by (simp add: run_Cons eq)
qed

subsection \<open>A round in which no guess is accepted\<close>

text \<open>
  Typing, submitting and an evaluation that is not positive change at most the guess, the
  requests sent and the console, so the timer of the round runs as if nothing had
  happened: the state after \<open>k\<close> firings is the one described by \<open>afterTicks\<close>.
\<close>

lemma allImagesReady_guess: "allImagesReady (s\<lparr>guess := g\<rparr>) = allImagesReady s"
  by (simp add: allImagesReady_def)

lemma rerender_guess: "rendered s \<Longrightarrow> rerender s (s\<lparr>guess := g\<rparr>) = s\<lparr>guess := g\<rparr>"
  by (simp add: rerender_def rendered_def isGameRunning_def allImagesReady_guess Let_def)

lemma wrongGuess_event:
  assumes "rendered t" "wrongGuess e"
  shows "handle e t = t \<or> (\<exists>g. handle e t = t\<lparr>guess := g\<rparr>)
           \<or> (\<exists>c. handle e t = t\<lparr>evaluateCalls := c\<rparr>)
           \<or> (\<exists>c. handle e t = t\<lparr>console := c\<rparr>)"
proof (cases e)
  case (ChangeGuess g)
  then have "handle e t = t\<lparr>guess := g\<rparr>"
    using assms(1) by (simp add: handle.simps rerender_guess)
  then show ?thesis by blast
next
  case Submit
  then show ?thesis
    by (auto simp: handle.simps handleAction_def checkAnswer_begin_def Let_def)
next
  case (EvaluateSettled r)
  show ?thesis
  proof (cases r)
    case (EvaluateOk n)
    with assms(2) EvaluateSettled have "n \<noteq> 1" by simp
    then have "handle e t = t"
      using assms(1) by (simp add: EvaluateSettled EvaluateOk handle.simps checkAnswer_def rerender_same)
    then show ?thesis by simp
  next
    case EvaluateFailure
    then have "handle e t = t\<lparr>console := console t @ [ErrorCheckingAnswer]\<rparr>"
      using assms(1) by (simp add: EvaluateSettled handle.simps checkAnswer_def rerender_console)
    then show ?thesis by blast
  qed
qed (use assms(2) in simp_all)

lemma afterTicks_wrongGuess:
  assumes "afterTicks s k t" "wrongGuess e"
  shows "afterTicks s k (handle e t)"
proof -
  have r: "rendered t" using assms(1) by (simp add: afterTicks_def)
  have r': "rendered (handle e t)" using r by (rule handle_rendered)
  from wrongGuess_event [OF r assms(2)] assms(1) r' show ?thesis
    by (auto simp: afterTicks_def)
qed

lemma afterTicks_Tick:
  assumes "afterTicks s k t" "0 < intervals s"
  shows "afterTicks s (Suc k) (handle Tick t)"
proof -
  have r: "rendered t" using assms(1) by (simp add: afterTicks_def)
  consider "k < 19" | "k = 19" | "20 \<le> k" by linarith
  then show ?thesis
  proof cases
    case 1
    then have t: "gameState t = Running" "0 < intervals t" "1 < timeLeft t"
      using assms by (simp_all add: afterTicks_def TIME_PER_ROUND_def)
    show ?thesis
      using assms(1) 1 by (simp add: tick_running_more [OF r t] afterTicks_def rendered_def isGameRunning_def)
  next
    case 2
    then have t: "gameState t = Running" "0 < intervals t" "timeLeft t - 1 \<le> 0"
      and tl: "timeLeft t = 1"
      using assms by (simp_all add: afterTicks_def TIME_PER_ROUND_def)
    have "newImageIndex (TIME_PER_ROUND - timeLeft t) = 9"
      by (simp add: tl newImageIndex_def TIME_PER_ROUND_def NUM_IMAGES_def)
    then show ?thesis
      using assms(1) 2 by (simp add: tick_running_last [OF r t] afterTicks_def rendered_def isGameRunning_def)
  next
    case 3
    then have t: "gameState t = Ended"
      using assms by (simp add: afterTicks_def)
    show ?thesis
      using assms(1) 3 by (simp add: tick_ended [OF r t] afterTicks_def rendered_def isGameRunning_def)
  qed
qed

lemma afterTicks_run:
  assumes "afterTicks s k t" "0 < intervals s" "\<forall>e\<in>set es. wrongGuess e \<or> e = Tick"
  shows "afterTicks s (k + count_list es Tick) (run es t)"
  using assms
proof (induction es arbitrary: k t)
  case Nil
  then show ?case by (simp add: run_Nil)
next
  case (Cons e es)
  show ?case
  proof (cases "e = Tick")
    case True
    have "afterTicks s (Suc k) (handle Tick t)"
      using Cons.prems(1,2) by (rule afterTicks_Tick)
    from Cons.IH [OF this Cons.prems(2)] Cons.prems(3) True show ?thesis
      by (simp add: run_Cons)
  next
    case False
    with Cons.prems(3) have "wrongGuess e" by simp
    with Cons.prems(1) have "afterTicks s k (handle e t)"
      by (rule afterTicks_wrongGuess)
    from Cons.IH [OF this Cons.prems(2)] Cons.prems(3) False show ?thesis
      by (simp add: run_Cons)
  qed
qed

lemma afterTicks_start:
  assumes "rendered s" "gameState s = Running" "timeLeft s = TIME_PER_ROUND"
  shows "afterTicks s 0 s"
  using assms by (simp add: afterTicks_def)

lemma twenty_ticks:
  assumes r: "rendered s" and g: "gameState s = Running" and i: "0 < intervals s"
    and full: "timeLeft s = TIME_PER_ROUND"
  shows "(\<forall>k<20. gameState (run (replicate k Tick) s) = Running
                     \<and> timeLeft (run (replicate k Tick) s) = TIME_PER_ROUND - int k)
            \<and> gameState (run (replicate 20 Tick) s) = Ended
            \<and> score (run (replicate 20 Tick) s) = score s
            \<and> correctWords (run (replicate 20 Tick) s) = correctWords s
            \<and> (images s \<noteq> [] \<and> correctWords s \<noteq> [] \<longrightarrow>
                 infoPanel (run (replicate 20 Tick) s) = RoundOverPanel (score s) (correctWords s))
            \<and> (\<forall>n. gameState (run (replicate n Tick) (run (replicate 20 Tick) s)) = Ended
                  \<and> timeLeft (run (replicate n Tick) (run (replicate 20 Tick) s))
                      = timeLeft (run (replicate 20 Tick) s)
                  \<and> score (run (replicate n Tick) (run (replicate 20 Tick) s)) = score s
                  \<and> currentImageIndex (run (replicate n Tick) (run (replicate 20 Tick) s))
                      = currentImageIndex (run (replicate 20 Tick) s))"
proof (intro conjI impI)
  let ?u = "run (replicate 19 Tick) s"
  let ?v = "run (replicate 20 Tick) s"
  have before: "rendered (run (replicate k Tick) s) \<and> gameState (run (replicate k Tick) s) = Running
       \<and> intervals (run (replicate k Tick) s) = intervals s
       \<and> timeLeft (run (replicate k Tick) s) = timeLeft s - int k
       \<and> score (run (replicate k Tick) s) = score s
       \<and> correctWords (run (replicate k Tick) s) = correctWords s
       \<and> images (run (replicate k Tick) s) = images s" if "k < 20" for k
    using that full by (intro ticks_running [OF r g i]) (simp add: TIME_PER_ROUND_def)
  show "\<forall>k<20. gameState (run (replicate k Tick) s) = Running
                     \<and> timeLeft (run (replicate k Tick) s) = TIME_PER_ROUND - int k"
    using before full by simp
  have u: "rendered ?u" "gameState ?u = Running" "0 < intervals ?u" "timeLeft ?u - 1 \<le> 0"
    using before [of 19] i full by (simp_all add: TIME_PER_ROUND_def)
  have "replicate 20 Tick = replicate 19 Tick @ [Tick]"
    by code_simp
  then have split: "?v = handle Tick ?u"
    by (simp add: run_append run_Cons run_Nil)
  note eq = tick_running_last [OF u]
  have v: "rendered ?v" "gameState ?v = Ended"
    by (simp_all add: split eq rendered_def isGameRunning_def)
  show "gameState ?v = Ended" by (rule v)
  show sc: "score ?v = score s" using before [of 19] by (simp add: split eq)
  show cw: "correctWords ?v = correctWords s" using before [of 19] by (simp add: split eq)
  have im: "images ?v = images s" using before [of 19] by (simp add: split eq)
  show "infoPanel ?v = RoundOverPanel (score s) (correctWords s)"
    if "images s \<noteq> [] \<and> correctWords s \<noteq> []"
    using that v(2) sc cw im
    by (simp add: infoPanel_def isGameRunning_def isLoading_def isGameEnded_def)
  show "\<forall>n. gameState (run (replicate n Tick) ?v) = Ended
                  \<and> timeLeft (run (replicate n Tick) ?v) = timeLeft ?v
                  \<and> score (run (replicate n Tick) ?v) = score s
                  \<and> currentImageIndex (run (replicate n Tick) ?v) = currentImageIndex ?v"
    using ticks_ended [OF v] sc by simp
qed

subsection \<open>The frames that have loaded\<close>

lemma mark_loaded:
  "loaded (handle (ImageLoad i) s) = AList.update i True (loaded s)"
  "loaded (handle (ImageError i) s) = AList.update i True (loaded s)"
  "images (handle (ImageLoad i) s) = images s"
  "images (handle (ImageError i) s) = images s"
  by (simp_all add: handle.simps rerender_fields handleImageLoad_def handleImageError_def Let_def)

lemma update_all_True:
  "list_all (\<lambda>v. v) (map snd al) \<Longrightarrow> list_all (\<lambda>v. v) (map snd (AList.update k True al))"
  by (induction al) auto

lemma run_marks:
  assumes "\<forall>e\<in>set es. \<exists>i. e = ImageLoad i \<or> e = ImageError i"
    and "distinct (map fst (loaded s))" and "list_all (\<lambda>v. v) (map snd (loaded s))"
  shows "images (run es s) = images s
       \<and> fst ` set (loaded (run es s))
           = fst ` set (loaded s) \<union> {i. ImageLoad i \<in> set es \<or> ImageError i \<in> set es}
       \<and> distinct (map fst (loaded (run es s)))
       \<and> list_all (\<lambda>v. v) (map snd (loaded (run es s)))"
  using assms
proof (induction es arbitrary: s)
  case Nil
  then show ?case by (simp add: run_Nil)
next
  case (Cons e es)
  from Cons.prems(1) obtain i where e: "e = ImageLoad i \<or> e = ImageError i"
    by auto
  let ?t = "handle e s"
  have l: "loaded ?t = AList.update i True (loaded s)" and im: "images ?t = images s"
    using e by (auto simp: mark_loaded)
  have d: "distinct (map fst (loaded ?t))"
    using Cons.prems(2) by (simp add: l distinct_update)
  have a: "list_all (\<lambda>v. v) (map snd (loaded ?t))"
    using Cons.prems(3) by (simp add: l update_all_True)
  have rest: "\<forall>e\<in>set es. \<exists>i. e = ImageLoad i \<or> e = ImageError i"
    using Cons.prems(1) by simp
  have keys: "fst ` set (loaded ?t) = insert i (fst ` set (loaded s))"
    by (simp add: l dom_update)
  from Cons.IH [OF rest d a] e show ?case
    by (auto simp: run_Cons im keys)
qed

lemma length_distinct_keys:
  fixes al :: "(nat \<times> bool) list"
  assumes "distinct (map fst al)"
  shows "length al = card (fst ` set al)"
proof -
  have "card (set (map fst al)) = length (map fst al)"
    using assms by (rule distinct_card)
  then show ?thesis
    by (simp only: set_map length_map)
qed

lemma card_keys_full:
  fixes al :: "(nat \<times> bool) list" and N :: nat
  assumes "fst ` set al \<subseteq> {..<N}"
  shows "card (fst ` set al) = N \<longleftrightarrow> fst ` set al = {..<N}"
proof
  assume "card (fst ` set al) = N"
  then have "card (fst ` set al) = card {..<N}" by simp
  with assms show "fst ` set al = {..<N}"
    by (intro card_subset_eq) simp_all
next
  assume "fst ` set al = {..<N}"
  then show "card (fst ` set al) = N" by simp
qed

lemma allImagesReady_card:
  assumes "distinct (map fst (loaded s))" "list_all (\<lambda>v. v) (map snd (loaded s))"
    and "fst ` set (loaded s) \<subseteq> {..<length (images s)}"
  shows "allImagesReady s \<longleftrightarrow> images s \<noteq> [] \<and> fst ` set (loaded s) = {..<length (images s)}"
proof -
  note len = length_distinct_keys [OF assms(1)]
  note full = card_keys_full [OF assms(3)]
  show ?thesis
    using assms(2) full by (simp add: allImagesReady_def Let_def len)
qed

subsection \<open>A round that starts with no timer alive\<close>

text \<open>
  When a round is started while no timer is alive, then whatever frames load or fail,
  whatever is typed or submitted and whenever a timer would fire, as long as not all
  frames are ready the game is running, there is no timer and the time left is the full
  round time.
\<close>

lemma allImagesReady_refs:
  "allImagesReady (s\<lparr>isGameRunningRef := a, timeLeftRef := b\<rparr>) = allImagesReady s"
  by (simp add: allImagesReady_def)

lemma rerender_intervals_not_ready:
  "\<not> allImagesReady s \<Longrightarrow> intervals (rerender p s) = intervals s"
  by (simp add: rerender_def timerEffect_def allImagesReady_refs Let_def)

lemma waiting_mark:
  assumes "waiting imgs t" "i < length imgs" "e = ImageLoad i \<or> e = ImageError i"
  shows "waiting imgs (handle e t)"
proof -
  let ?t = "handle e t"
  have l: "loaded ?t = AList.update i True (loaded t)" and im: "images ?t = imgs"
    using assms by (auto simp: mark_loaded waiting_def)
  have d: "distinct (map fst (loaded ?t))"
    using assms(1) by (simp add: l distinct_update waiting_def)
  have a: "list_all (\<lambda>v. v) (map snd (loaded ?t))"
    using assms(1) by (simp add: l update_all_True waiting_def)
  have keys: "fst ` set (loaded ?t) = insert i (fst ` set (loaded t))"
    by (simp add: l dom_update)
  have sub: "fst ` set (loaded ?t) \<subseteq> {..<length imgs}"
    using assms(1,2) by (auto simp: keys waiting_def)
  have r: "rendered ?t"
    using assms(3) by (auto simp: handle.simps rerender_rendered)
  have mono: "allImagesReady t \<Longrightarrow> allImagesReady ?t"
    using allImagesReady_card [of t] allImagesReady_card [of ?t] assms(1,2) d a sub
    by (auto simp: waiting_def im keys)
  have fields: "gameState ?t = gameState t" "timeLeft ?t = timeLeft t"
    using assms(3)
    by (auto simp: handle.simps rerender_fields handleImageLoad_def handleImageError_def Let_def)
  have iv: "intervals ?t = intervals t" if "\<not> allImagesReady ?t"
  proof -
    from assms(3) obtain b where h: "?t = rerender t b" and bi: "intervals b = intervals t"
      by (auto simp: handle.simps handleImageLoad_def handleImageError_def Let_def)
    from that have "\<not> allImagesReady b"
      by (simp add: h rerender_allImagesReady)
    then show ?thesis
      by (simp add: h rerender_intervals_not_ready bi)
  qed
  show ?thesis
    unfolding waiting_def using r im d a sub mono iv fields assms(1)
    by (auto simp: waiting_def)
qed

lemma waiting_other:
  assumes "waiting imgs t" "e = Tick \<or> e = Submit \<or> (\<exists>g. e = ChangeGuess g)"
    and "\<not> allImagesReady t"
  shows "handle e t = t \<or> (\<exists>g. handle e t = t\<lparr>guess := g\<rparr>)
           \<or> (\<exists>c. handle e t = t\<lparr>evaluateCalls := c\<rparr>)"
proof -
  from assms(1,3) have w: "rendered t" "gameState t = Running" "intervals t = 0"
    by (simp_all add: waiting_def)
  from assms(2) consider "e = Tick" | "e = Submit" | g where "e = ChangeGuess g"
    by blast
  then show ?thesis
  proof cases
    case 1
    then show ?thesis using w by (simp add: handle.simps)
  next
    case 2
    then show ?thesis
      by (auto simp: handle.simps handleAction_def checkAnswer_begin_def Let_def)
  next
    case 3
    have "allImagesReady (t\<lparr>guess := g\<rparr>) = allImagesReady t"
      by (simp add: allImagesReady_def)
    then have "rerender t (t\<lparr>guess := g\<rparr>) = t\<lparr>guess := g\<rparr>"
      using w(1) by (simp add: rerender_def rendered_def isGameRunning_def Let_def)
    with 3 show ?thesis
      by (auto simp: handle.simps)
  qed
qed

lemma other_frames:
  assumes "e = Tick \<or> e = Submit \<or> (\<exists>g. e = ChangeGuess g)"
  shows "images (handle e t) = images t \<and> loaded (handle e t) = loaded t"
  using assms
  by (auto simp: handle.simps rerender_fields intervalCallback_def timeLeftUpdater_def
      stopGame_def handleAction_def checkAnswer_begin_def Let_def)

lemma waiting_step:
  assumes "waiting imgs t"
    and "(\<exists>i<length imgs. e = ImageLoad i \<or> e = ImageError i)
         \<or> e = Tick \<or> e = Submit \<or> (\<exists>g. e = ChangeGuess g)"
  shows "waiting imgs (handle e t)"
proof (cases "\<exists>i<length imgs. e = ImageLoad i \<or> e = ImageError i")
  case True
  then show ?thesis
    using assms(1) waiting_mark by blast
next
  case False
  with assms(2) have other: "e = Tick \<or> e = Submit \<or> (\<exists>g. e = ChangeGuess g)"
    by blast
  note same = other_frames [OF other, of t]
  have ready: "allImagesReady (handle e t) = allImagesReady t"
    using same by (simp add: allImagesReady_def)
  have r: "rendered (handle e t)"
    using assms(1) by (simp add: waiting_def handle_rendered)
  have keep: "gameState (handle e t) = Running \<and> intervals (handle e t) = 0
                \<and> timeLeft (handle e t) = TIME_PER_ROUND"
    if "\<not> allImagesReady t"
    using waiting_other [OF assms(1) other that] assms(1) that
    by (auto simp: waiting_def)
  show ?thesis
    unfolding waiting_def using assms(1) same ready r keep
    by (auto simp: waiting_def)
qed

lemma waiting_run:
  assumes "waiting imgs t"
    and "\<forall>e\<in>set es. (\<exists>i<length imgs. e = ImageLoad i \<or> e = ImageError i)
         \<or> e = Tick \<or> e = Submit \<or> (\<exists>g. e = ChangeGuess g)"
  shows "waiting imgs (run es t)"
  using assms
proof (induction es arbitrary: t)
  case Nil
  then show ?case by (simp add: run_Nil)
next
  case (Cons e es)
  have "waiting imgs (handle e t)"
    using Cons.prems by (intro waiting_step) simp_all
  then show ?case
    using Cons.IH Cons.prems(2) by (simp add: run_Cons)
qed

lemma waiting_start:
  assumes "intervals s0 = 0"
  shows "waiting imgs (handle (GenerateSettled (GenerateOk imgs cs ws)) (handle ClickStart s0))"
proof -
  let ?l = "handle ClickStart s0"
  let ?s = "handle (GenerateSettled (GenerateOk imgs cs ws)) ?l"
  have nl: "\<not> allImagesReady (startGame_begin s0)"
    by (simp add: allImagesReady_def start_defs Let_def)
  have "intervals ?l = intervals (startGame_begin s0)"
    by (simp add: handle.simps(1) rerender_intervals_not_ready [OF nl])
  then have il: "intervals ?l = 0"
    using assms by (simp add: start_defs Let_def)
  have ns: "\<not> allImagesReady (snd (startGame_resume (GenerateOk imgs cs ws) ?l))"
    by (simp add: allImagesReady_def handle.simps rerender_fields start_defs Let_def)
  have "intervals ?s = intervals (snd (startGame_resume (GenerateOk imgs cs ws) ?l))"
    by (simp add: handle.simps(2) [of _ ?l] rerender_intervals_not_ready [OF ns])
  then have i: "intervals ?s = 0"
    using il by (simp add: start_defs)
  have f: "images ?s = imgs" "loaded ?s = []" "gameState ?s = Running" "timeLeft ?s = TIME_PER_ROUND"
    by (simp_all add: handle.simps rerender_fields start_defs Let_def)
  have "rendered ?s"
    by (simp add: handle.simps rerender_rendered)
  with i f show ?thesis
    by (simp add: waiting_def)
qed

lemma no_tick_before_frames_ready:
  assumes "intervals s0 = 0"
    and "s = handle (GenerateSettled (GenerateOk imgs cs ws)) (handle ClickStart s0)"
    and "\<forall>e\<in>set es. (\<exists>i<length imgs. e = ImageLoad i \<or> e = ImageError i)
         \<or> e = Tick \<or> e = Submit \<or> (\<exists>g. e = ChangeGuess g)"
    and "\<not> allImagesReady (run es s)"
  shows "gameState (run es s) = Running \<and> intervals (run es s) = 0
       \<and> timeLeft (run es s) = TIME_PER_ROUND"
  using waiting_run [OF waiting_start [OF assms(1)] assms(3), of cs ws] assms(2,4)
  by (simp add: waiting_def)

subsection \<open>A round without frames\<close>

text \<open>
  As long as the frame list is empty the frames are not all ready, so no render creates
  a timer: the number of timers alive can only go down, whatever happens except the
  arrival of a payload.
\<close>

lemma no_frames_step:
  assumes "images t = []" "\<forall>r. e \<noteq> GenerateSettled r"
  shows "images (handle e t) = [] \<and> intervals (handle e t) \<le> intervals t"
proof -
  have nr: "\<not> allImagesReady u" if "images u = []" for u
    using that by (simp add: allImagesReady_def)
  show ?thesis
  proof (cases e)
    case ClickStart
    have "images (startGame_begin t) = []" "intervals (startGame_begin t) = intervals t"
      by (simp_all add: start_defs incrementRounds_def Let_def)
    then show ?thesis
      using rerender_intervals_not_ready [OF nr, of "startGame_begin t" t]
      by (simp add: ClickStart handle.simps rerender_fields)
  next
    case (GenerateSettled r)
    with assms(2) show ?thesis by simp
  next
    case (ImageLoad i)
    have "images (handleImageLoad i t) = []" "intervals (handleImageLoad i t) = intervals t"
      using assms(1) by (simp_all add: handleImageLoad_def)
    then show ?thesis
      using rerender_intervals_not_ready [OF nr, of "handleImageLoad i t" t]
      by (simp add: ImageLoad handle.simps rerender_fields)
  next
    case (ImageError i)
    have "images (handleImageError i t) = []" "intervals (handleImageError i t) = intervals t"
      using assms(1) by (simp_all add: handleImageError_def Let_def)
    then show ?thesis
      using rerender_intervals_not_ready [OF nr, of "handleImageError i t" t]
      by (simp add: ImageError handle.simps rerender_fields)
  next
    case Tick
    have "images (intervalCallback t) = []" "intervals (intervalCallback t) \<le> intervals t"
      using assms(1)
      by (simp_all add: intervalCallback_def timeLeftUpdater_def stopGame_def Let_def)
    then show ?thesis
      using rerender_intervals_not_ready [OF nr, of "intervalCallback t" t] assms(1)
      by (simp add: Tick handle.simps rerender_fields)
  next
    case ClickStop
    have "images (stopGame t) = []" "intervals (stopGame t) = intervals t"
      using assms(1) by (simp_all add: stopGame_def)
    then show ?thesis
      using rerender_intervals_not_ready [OF nr, of "stopGame t" t]
      by (simp add: ClickStop handle.simps rerender_fields)
  next
    case (ChangeGuess g)
    have "images (t\<lparr>guess := g\<rparr>) = []" "intervals (t\<lparr>guess := g\<rparr>) = intervals t"
      using assms(1) by simp_all
    then show ?thesis
      using rerender_intervals_not_ready [OF nr, of "t\<lparr>guess := g\<rparr>" t]
      by (simp add: ChangeGuess handle.simps rerender_fields)
  next
    case Submit
    then show ?thesis
      using assms(1) by (simp add: handle.simps handleAction_def checkAnswer_begin_def Let_def)
  next
    case (EvaluateSettled r)
    have "images (snd (checkAnswer r t)) = []"
      "intervals (snd (checkAnswer r t)) = intervals t"
      using assms(1)
      by (simp_all add: checkAnswer_def stopGame_def addToScore_def Let_def
          split: evaluate_response.splits)
    then show ?thesis
      using rerender_intervals_not_ready [OF nr, of "snd (checkAnswer r t)" t]
      by (simp add: EvaluateSettled handle.simps rerender_fields)
  qed
qed

lemma no_frames_run:
  assumes "images t = []" "\<forall>r. GenerateSettled r \<notin> set es"
  shows "images (run es t) = [] \<and> intervals (run es t) \<le> intervals t"
  using assms
proof (induction es arbitrary: t)
  case Nil
  then show ?case by (simp add: run_Nil)
next
  case (Cons e es)
  from Cons.prems(2) have e: "\<forall>r. e \<noteq> GenerateSettled r" by auto
  from Cons.prems(2) have es: "\<forall>r. GenerateSettled r \<notin> set es" by auto
  note step = no_frames_step [OF Cons.prems(1) e]
  from step have "images (handle e t) = []" by blast
  from Cons.IH [OF this es] step show ?case
    by (simp add: run_Cons)
qed

section \<open>The properties of the specification\<close>

subsection \<open>C1: no tick before all frames are ready\<close>

text \<open>
  C1 says that while a round is running and not all of its frames are loaded, no tick
  changes the time left. That holds for a round started while no timer is alive
  (\<open>no_tick_before_frames_ready\<close>), but a timer of the previous round is cleared only
  by its own next firing. In the run below the first round is stopped by the player; the
  start button is enabled; the next round is started and its payload arrives before the
  old timer fires again. The new round is then running with none of its frames loaded
  and one timer alive, and the firing of that timer takes the time left from 20 to 19.
\<close>

theorem stale_timer_ticks_before_preload:
  "gameState (run (exampleRound @ [ClickStop]) initialGame) = Ended
   \<and> intervals (run (exampleRound @ [ClickStop]) initialGame) = 1
   \<and> \<not> startButtonDisabled (run (exampleRound @ [ClickStop]) initialGame)
   \<and> gameState (run (exampleRound @ [ClickStop, ClickStart, GenerateSettled examplePayload])
        initialGame) = Running
   \<and> \<not> allImagesReady (run (exampleRound @ [ClickStop, ClickStart, GenerateSettled examplePayload])
        initialGame)
   \<and> intervals (run (exampleRound @ [ClickStop, ClickStart, GenerateSettled examplePayload])
        initialGame) = 1
   \<and> timeLeft (run (exampleRound @ [ClickStop, ClickStart, GenerateSettled examplePayload])
        initialGame) = 20
   \<and> timeLeft (run (exampleRound @ [ClickStop, ClickStart, GenerateSettled examplePayload, Tick])
        initialGame) = 19
   \<and> \<not> allImagesReady (run (exampleRound @ [ClickStop, ClickStart, GenerateSettled examplePayload,
        Tick]) initialGame)"
  by code_simp

subsection \<open>C2: a correct evaluation that arrives after the timeout\<close>

text \<open>
  C2 says that the result of an evaluation that settles after the round has ended is
  discarded. \<open>checkAnswer\<close> does not look at the state of the game when its request
  settles. In the run below the guess is submitted with one second left, the next tick
  ends the round by timeout and resets the time left to 20, and the positive answer that
  arrives afterwards adds \<open>20 * 10\<close> to the score of the ended round.
\<close>

theorem late_evaluation_scores_after_timeout:
  "gameState (run (exampleRound @ replicate 19 Tick @ [ChangeGuess ''eagle banana'']) initialGame)
       = Running
   \<and> timeLeft (run (exampleRound @ replicate 19 Tick @ [ChangeGuess ''eagle banana'']) initialGame)
       = 1
   \<and> evaluateCalls (run (exampleRound @ replicate 19 Tick @ [ChangeGuess ''eagle banana'', Submit])
        initialGame) = [(''eagle banana'', ''eagle banana'')]
   \<and> gameState (run (exampleRound @ replicate 19 Tick @ [ChangeGuess ''eagle banana'', Submit,
        Tick]) initialGame) = Ended
   \<and> timeLeft (run (exampleRound @ replicate 19 Tick @ [ChangeGuess ''eagle banana'', Submit,
        Tick]) initialGame) = 20
   \<and> score (run (exampleRound @ replicate 19 Tick @ [ChangeGuess ''eagle banana'', Submit,
        Tick]) initialGame) = 0
   \<and> score (run (exampleRound @ replicate 19 Tick @ [ChangeGuess ''eagle banana'', Submit,
        Tick, EvaluateSettled (EvaluateOk 1)]) initialGame) = 200"
  by code_simp

subsection \<open>C3: the frame index\<close>

text \<open>
  C3: the frame index computed from the elapsed time, with the round duration 20 and
  the frame count 10, is \<open>min (floor (elapsed / 2)) 9\<close> for every non-negative
  elapsed time; on \<open>[0, 19]\<close> it is \<open>floor (elapsed / 2)\<close>; it never decreases as the
  elapsed time grows; and it is 9 for every elapsed time from 19 on, so at 19 and at 20.
\<close>

theorem frame_index_mapper:
  "(0 \<le> e \<longrightarrow> newImageIndex e = min (e div 2) 9)
   \<and> (0 \<le> e \<and> e \<le> 19 \<longrightarrow> newImageIndex e = e div 2)
   \<and> (e \<le> e' \<longrightarrow> newImageIndex e \<le> newImageIndex e')
   \<and> (0 \<le> e \<longrightarrow> newImageIndex e \<le> newImageIndex (e + 1))
   \<and> (19 \<le> e \<longrightarrow> newImageIndex e = 9)
   \<and> newImageIndex 19 = 9 \<and> newImageIndex 20 = 9"
proof -
  have eq: "\<And>x. newImageIndex x = min (x div 2) 9"
    by (simp add: newImageIndex_def TIME_PER_ROUND_def NUM_IMAGES_def)
  have mono: "e \<le> e' \<longrightarrow> newImageIndex e \<le> newImageIndex e'"
    unfolding eq by (auto simp: min_def intro: zdiv_mono1)
  have step: "newImageIndex e \<le> newImageIndex (e + 1)"
    unfolding eq by (auto simp: min_def)
  have low: "0 \<le> e \<and> e \<le> 19 \<longrightarrow> newImageIndex e = e div 2"
    unfolding eq by auto
  have high: "19 \<le> e \<longrightarrow> newImageIndex e = 9"
    unfolding eq by auto
  show ?thesis
    using mono step low high by (simp add: eq)
qed

theorem frame_index_mapper_witness:
  "newImageIndex 7 = 3 \<and> newImageIndex 7 \<le> newImageIndex 12 \<and> newImageIndex 7 \<le> newImageIndex 8
   \<and> newImageIndex 19 = 9 \<and> newImageIndex 20 = 9"
  using frame_index_mapper [of 7 12] by simp

subsection \<open>C4: the evaluation of a guess\<close>

text \<open>
  C4 as stated fails: it has the round end with a flag \<open>timedOut = false\<close>, and the
  component keeps no such flag. A correct guess ends the round through \<open>stopGame\<close>, which
  stores \<open>'ended'\<close> and nothing more (lines 147 to 149), exactly as a timeout does. In the
  example round, a correct guess at the full round time (after which the timer fires once
  more and clears itself) and a wrong guess followed by the timeout leave the same state
  but for the score and the frame index: the state of the round is \<open>Ended\<close> and the time
  left is 20 in both, and both show the round-over message.
\<close>

theorem correct_guess_sets_no_flag:
  "gameState (run (exampleRound
       @ [ChangeGuess ''eagle banana'', Submit, EvaluateSettled (EvaluateOk 1), Tick]) initialGame)
     = Ended
   \<and> gameState (run (exampleRound
       @ [ChangeGuess ''eagle banana'', Submit, EvaluateSettled (EvaluateOk 0)]
       @ replicate 20 Tick) initialGame) = Ended
   \<and> timeLeft (run (exampleRound
       @ [ChangeGuess ''eagle banana'', Submit, EvaluateSettled (EvaluateOk 1), Tick]) initialGame)
     = 20
   \<and> timeLeft (run (exampleRound
       @ [ChangeGuess ''eagle banana'', Submit, EvaluateSettled (EvaluateOk 0)]
       @ replicate 20 Tick) initialGame) = 20
   \<and> infoPanel (run (exampleRound
       @ [ChangeGuess ''eagle banana'', Submit, EvaluateSettled (EvaluateOk 1), Tick]) initialGame)
     = RoundOverPanel 200 [''eagle'', ''banana'']
   \<and> infoPanel (run (exampleRound
       @ [ChangeGuess ''eagle banana'', Submit, EvaluateSettled (EvaluateOk 0)]
       @ replicate 20 Tick) initialGame) = RoundOverPanel 0 [''eagle'', ''banana'']
   \<and> run (exampleRound
       @ [ChangeGuess ''eagle banana'', Submit, EvaluateSettled (EvaluateOk 1), Tick]) initialGame
     = (run (exampleRound
         @ [ChangeGuess ''eagle banana'', Submit, EvaluateSettled (EvaluateOk 0)]
         @ replicate 20 Tick) initialGame)\<lparr>score := 200, currentImageIndex := 0\<rparr>"
  by code_simp

text \<open>
  C4, amended: in a rendered running round the submitted guess is sent to the evaluator
  with the answer made of the two correct words, and nothing else changes. When the
  answer is positive (\<open>data.score == 1\<close>) the score grows by exactly the time left times
  10 and the state of the round becomes \<open>Ended\<close>; the score, the state of the round and
  the ref that mirrors it are all that changes, so nothing records whether the round
  timed out. The time left stays as it was, and however often a timer fires afterwards,
  the state of the round, the time left, the score and the frame index stay as the guess
  left them. When the answer is negative the whole state is unchanged, so the player can
  guess again.
\<close>

theorem guess_evaluation:
  assumes "rendered s" "gameState s = Running"
  shows "handle Submit s
           = s\<lparr>evaluateCalls := evaluateCalls s
                @ [(wordAt (correctWords s) 0 @ '' '' @ wordAt (correctWords s) 1, guess s)]\<rparr>
       \<and> handle (EvaluateSettled (EvaluateOk 1)) s
           = s\<lparr>score := score s + timeLeft s * 10, gameState := Ended, isGameRunningRef := False\<rparr>
       \<and> score (handle (EvaluateSettled (EvaluateOk 1)) s) = score s + timeLeft s * 10
       \<and> gameState (handle (EvaluateSettled (EvaluateOk 1)) s) = Ended
       \<and> timeLeft (handle (EvaluateSettled (EvaluateOk 1)) s) = timeLeft s
       \<and> timeLeft (handle Tick (handle (EvaluateSettled (EvaluateOk 1)) s)) = timeLeft s
       \<and> (\<forall>k. gameState (run (replicate k Tick) (handle (EvaluateSettled (EvaluateOk 1)) s)) = Ended
              \<and> timeLeft (run (replicate k Tick) (handle (EvaluateSettled (EvaluateOk 1)) s))
                  = timeLeft s
              \<and> score (run (replicate k Tick) (handle (EvaluateSettled (EvaluateOk 1)) s))
                  = score s + timeLeft s * 10
              \<and> currentImageIndex (run (replicate k Tick) (handle (EvaluateSettled (EvaluateOk 1)) s))
                  = currentImageIndex s)
       \<and> (n \<noteq> 1 \<longrightarrow> handle (EvaluateSettled (EvaluateOk n)) s = s)"
proof -
  have req: "handle Submit s
           = s\<lparr>evaluateCalls := evaluateCalls s
                @ [(wordAt (correctWords s) 0 @ '' '' @ wordAt (correctWords s) 1, guess s)]\<rparr>"
    using assms(2)
    by (simp add: handle.simps handleAction_def checkAnswer_begin_def isGameRunning_def Let_def)
  have pos: "handle (EvaluateSettled (EvaluateOk 1)) s
           = s\<lparr>score := score s + timeLeft s * 10, gameState := Ended, isGameRunningRef := False\<rparr>"
    using assms by (cases s) (auto simp: handle.simps handler_defs allImagesReady_def)
  have neg: "handle (EvaluateSettled (EvaluateOk n)) s = s" if "n \<noteq> 1"
    using assms that by (cases s) (auto simp: handle.simps handler_defs)
  let ?t = "handle (EvaluateSettled (EvaluateOk 1)) s"
  have t: "rendered ?t" "gameState ?t = Ended"
    using assms by (simp_all add: pos rendered_def isGameRunning_def)
  then have "handle Tick ?t = ?t\<lparr>intervals := intervals ?t - 1\<rparr>"
    by (rule tick_ended)
  then have after: "timeLeft (handle Tick ?t) = timeLeft s"
    by (simp add: pos)
  have fields: "score ?t = score s + timeLeft s * 10" "gameState ?t = Ended"
    "timeLeft ?t = timeLeft s" "currentImageIndex ?t = currentImageIndex s"
    by (simp_all add: pos)
  have later: "\<forall>k. gameState (run (replicate k Tick) ?t) = Ended
              \<and> timeLeft (run (replicate k Tick) ?t) = timeLeft s
              \<and> score (run (replicate k Tick) ?t) = score s + timeLeft s * 10
              \<and> currentImageIndex (run (replicate k Tick) ?t) = currentImageIndex s"
    using ticks_ended [OF t] fields by simp
  from fields(1-3) show ?thesis
    by (intro conjI impI req pos neg after later)
qed

theorem guess_evaluation_witness:
  "timeLeft (run (exampleRound @ replicate 15 Tick) initialGame) = 5
   \<and> score (run (exampleRound @ replicate 15 Tick) initialGame) = 0
   \<and> score (handle (EvaluateSettled (EvaluateOk 1))
        (run (exampleRound @ replicate 15 Tick) initialGame)) = 50
   \<and> gameState (handle (EvaluateSettled (EvaluateOk 1))
        (run (exampleRound @ replicate 15 Tick) initialGame)) = Ended
   \<and> timeLeft (handle Tick (handle (EvaluateSettled (EvaluateOk 1))
        (run (exampleRound @ replicate 15 Tick) initialGame))) = 5
   \<and> timeLeft (run (replicate 7 Tick) (handle (EvaluateSettled (EvaluateOk 1))
        (run (exampleRound @ replicate 15 Tick) initialGame))) = 5
   \<and> handle (EvaluateSettled (EvaluateOk 0)) (run (exampleRound @ replicate 15 Tick) initialGame)
       = run (exampleRound @ replicate 15 Tick) initialGame"
proof -
  let ?s = "run (exampleRound @ replicate 15 Tick) initialGame"
  let ?t = "handle (EvaluateSettled (EvaluateOk 1)) ?s"
  have r: "rendered ?s" by code_simp
  have g: "gameState ?s = Running" by code_simp
  have t: "timeLeft ?s = 5" by code_simp
  have sc: "score ?s = 0" by code_simp
  note th = guess_evaluation [OF r g, of 0]
  from th have a: "score ?t = score ?s + timeLeft ?s * 10"
    and b: "gameState ?t = Ended"
    and c: "timeLeft (handle Tick ?t) = timeLeft ?s"
    and d: "\<forall>k. gameState (run (replicate k Tick) ?t) = Ended
              \<and> timeLeft (run (replicate k Tick) ?t) = timeLeft ?s
              \<and> score (run (replicate k Tick) ?t) = score ?s + timeLeft ?s * 10
              \<and> currentImageIndex (run (replicate k Tick) ?t) = currentImageIndex ?s"
    and e: "(0::int) \<noteq> 1 \<longrightarrow> handle (EvaluateSettled (EvaluateOk 0)) ?s = ?s"
    by blast+
  from a t sc have a': "score ?t = 50" by simp
  from c t have c': "timeLeft (handle Tick ?t) = 5" by simp
  from d t have d': "timeLeft (run (replicate 7 Tick) ?t) = 5" by simp
  from e have e': "handle (EvaluateSettled (EvaluateOk 0)) ?s = ?s" by simp
  show ?thesis
    by (intro conjI t sc a' b c' d' e')
qed

subsection \<open>C5: timeout\<close>

text \<open>
  C5 as stated fails: it has the round end with a flag \<open>timedOut = true\<close>, and the
  component keeps no such flag. The tick that times the round out calls \<open>stopGame\<close>,
  which stores \<open>'ended'\<close> and nothing more (lines 147 to 149), exactly as the stop button
  does. In the example round the timeout leaves the state that a click on the stop button
  at the full round time leaves (once the timer has fired and cleared itself) but for the
  frame index, and the state that a click on the stop button after 19 ticks leaves but
  for the time left; all three show the same round-over message.
\<close>

theorem timeout_sets_no_flag:
  "gameState (run (exampleRound @ replicate 20 Tick) initialGame) = Ended
   \<and> gameState (run (exampleRound @ [ClickStop, Tick]) initialGame) = Ended
   \<and> gameState (run (exampleRound @ replicate 19 Tick @ [ClickStop, Tick]) initialGame) = Ended
   \<and> infoPanel (run (exampleRound @ replicate 20 Tick) initialGame)
       = RoundOverPanel 0 [''eagle'', ''banana'']
   \<and> infoPanel (run (exampleRound @ [ClickStop, Tick]) initialGame)
       = RoundOverPanel 0 [''eagle'', ''banana'']
   \<and> infoPanel (run (exampleRound @ replicate 19 Tick @ [ClickStop, Tick]) initialGame)
       = RoundOverPanel 0 [''eagle'', ''banana'']
   \<and> run (exampleRound @ replicate 20 Tick) initialGame
       = (run (exampleRound @ [ClickStop, Tick]) initialGame)\<lparr>currentImageIndex := 9\<rparr>
   \<and> run (exampleRound @ replicate 20 Tick) initialGame
       = (run (exampleRound @ replicate 19 Tick @ [ClickStop, Tick]) initialGame)
           \<lparr>timeLeft := 20, timeLeftRef := 20\<rparr>"
  by code_simp

text \<open>
  C5, amended: in a rendered running round with a live timer, the tick whose decrement
  reaches 0 (the test \<open>prevTime - 1 <= 0\<close> of the updater) ends the round: the state of
  the round becomes \<open>Ended\<close>, the time left is set back to the round time, the timer is
  cleared and the frame index is updated; nothing else changes, so the score and the
  correct words are as they were and nothing records that the round timed out. Starting
  from the full round time, the round is still running after each of the first 19 ticks
  and is ended by the 20th, which is the timeout; the score is the one the round started
  with, the correct words are unchanged and, with frames and words present, the panel
  shows them; however often a timer fires afterwards, the state of the round, the time
  left, the score and the frame index stay as the 20th tick left them. The same holds
  when the player types, submits and receives negative or failed evaluations between the
  ticks: with fewer than 20 ticks among the events the round is running, that many
  seconds are gone and the score is unchanged; with 20 or more the round is ended, the
  score and the correct words are unchanged and the panel shows them.
\<close>

theorem timeout_after_twenty_ticks:
  assumes "rendered s" "gameState s = Running" "0 < intervals s"
  shows "(timeLeft s - 1 \<le> 0 \<longrightarrow>
            handle Tick s
              = s\<lparr>gameState := Ended, timeLeft := TIME_PER_ROUND, timeLeftRef := TIME_PER_ROUND,
                  isGameRunningRef := False, intervals := intervals s - 1,
                  currentImageIndex := newImageIndex (TIME_PER_ROUND - timeLeft s)\<rparr>
            \<and> gameState (handle Tick s) = Ended \<and> score (handle Tick s) = score s
            \<and> correctWords (handle Tick s) = correctWords s)
       \<and> (timeLeft s = TIME_PER_ROUND \<longrightarrow>
            (\<forall>k<20. gameState (run (replicate k Tick) s) = Running
                     \<and> timeLeft (run (replicate k Tick) s) = TIME_PER_ROUND - int k)
            \<and> gameState (run (replicate 20 Tick) s) = Ended
            \<and> score (run (replicate 20 Tick) s) = score s
            \<and> correctWords (run (replicate 20 Tick) s) = correctWords s
            \<and> (images s \<noteq> [] \<and> correctWords s \<noteq> [] \<longrightarrow>
                 infoPanel (run (replicate 20 Tick) s) = RoundOverPanel (score s) (correctWords s))
            \<and> (\<forall>n. gameState (run (replicate n Tick) (run (replicate 20 Tick) s)) = Ended
                  \<and> timeLeft (run (replicate n Tick) (run (replicate 20 Tick) s))
                      = timeLeft (run (replicate 20 Tick) s)
                  \<and> score (run (replicate n Tick) (run (replicate 20 Tick) s)) = score s
                  \<and> currentImageIndex (run (replicate n Tick) (run (replicate 20 Tick) s))
                      = currentImageIndex (run (replicate 20 Tick) s)))
       \<and> (timeLeft s = TIME_PER_ROUND \<and> (\<forall>e\<in>set es. wrongGuess e \<or> e = Tick) \<longrightarrow>
            (count_list es Tick < 20 \<longrightarrow>
               gameState (run es s) = Running
               \<and> timeLeft (run es s) = TIME_PER_ROUND - int (count_list es Tick)
               \<and> score (run es s) = score s)
            \<and> (20 \<le> count_list es Tick \<longrightarrow>
               gameState (run es s) = Ended \<and> timeLeft (run es s) = TIME_PER_ROUND
               \<and> score (run es s) = score s \<and> correctWords (run es s) = correctWords s
               \<and> (images s \<noteq> [] \<and> correctWords s \<noteq> [] \<longrightarrow>
                    infoPanel (run es s) = RoundOverPanel (score s) (correctWords s))))"
proof (intro conjI)
  show "timeLeft s - 1 \<le> 0 \<longrightarrow>
            handle Tick s
              = s\<lparr>gameState := Ended, timeLeft := TIME_PER_ROUND, timeLeftRef := TIME_PER_ROUND,
                  isGameRunningRef := False, intervals := intervals s - 1,
                  currentImageIndex := newImageIndex (TIME_PER_ROUND - timeLeft s)\<rparr>
            \<and> gameState (handle Tick s) = Ended \<and> score (handle Tick s) = score s
            \<and> correctWords (handle Tick s) = correctWords s"
  proof
    assume last: "timeLeft s - 1 \<le> 0"
    note eq = tick_running_last [OF assms last]
    have "gameState (handle Tick s) = Ended" "score (handle Tick s) = score s"
      "correctWords (handle Tick s) = correctWords s"
      by (simp_all add: eq)
    then show "handle Tick s
              = s\<lparr>gameState := Ended, timeLeft := TIME_PER_ROUND, timeLeftRef := TIME_PER_ROUND,
                  isGameRunningRef := False, intervals := intervals s - 1,
                  currentImageIndex := newImageIndex (TIME_PER_ROUND - timeLeft s)\<rparr>
            \<and> gameState (handle Tick s) = Ended \<and> score (handle Tick s) = score s
            \<and> correctWords (handle Tick s) = correctWords s"
      by (intro conjI eq)
  qed
next
  show "timeLeft s = TIME_PER_ROUND \<longrightarrow>
            (\<forall>k<20. gameState (run (replicate k Tick) s) = Running
                     \<and> timeLeft (run (replicate k Tick) s) = TIME_PER_ROUND - int k)
            \<and> gameState (run (replicate 20 Tick) s) = Ended
            \<and> score (run (replicate 20 Tick) s) = score s
            \<and> correctWords (run (replicate 20 Tick) s) = correctWords s
            \<and> (images s \<noteq> [] \<and> correctWords s \<noteq> [] \<longrightarrow>
                 infoPanel (run (replicate 20 Tick) s) = RoundOverPanel (score s) (correctWords s))
            \<and> (\<forall>n. gameState (run (replicate n Tick) (run (replicate 20 Tick) s)) = Ended
                  \<and> timeLeft (run (replicate n Tick) (run (replicate 20 Tick) s))
                      = timeLeft (run (replicate 20 Tick) s)
                  \<and> score (run (replicate n Tick) (run (replicate 20 Tick) s)) = score s
                  \<and> currentImageIndex (run (replicate n Tick) (run (replicate 20 Tick) s))
                      = currentImageIndex (run (replicate 20 Tick) s))"
    using twenty_ticks [OF assms] by blast
next
  show "timeLeft s = TIME_PER_ROUND \<and> (\<forall>e\<in>set es. wrongGuess e \<or> e = Tick) \<longrightarrow>
            (count_list es Tick < 20 \<longrightarrow>
               gameState (run es s) = Running
               \<and> timeLeft (run es s) = TIME_PER_ROUND - int (count_list es Tick)
               \<and> score (run es s) = score s)
            \<and> (20 \<le> count_list es Tick \<longrightarrow>
               gameState (run es s) = Ended \<and> timeLeft (run es s) = TIME_PER_ROUND
               \<and> score (run es s) = score s \<and> correctWords (run es s) = correctWords s
               \<and> (images s \<noteq> [] \<and> correctWords s \<noteq> [] \<longrightarrow>
                    infoPanel (run es s) = RoundOverPanel (score s) (correctWords s)))"
  proof
    assume a: "timeLeft s = TIME_PER_ROUND \<and> (\<forall>e\<in>set es. wrongGuess e \<or> e = Tick)"
    then have "afterTicks s 0 s"
      using assms(1,2) by (intro afterTicks_start) simp_all
    then have "afterTicks s (0 + count_list es Tick) (run es s)"
      using assms(3) a by (intro afterTicks_run) simp_all
    then have inv: "afterTicks s (count_list es Tick) (run es s)"
      by simp
    show "(count_list es Tick < 20 \<longrightarrow>
               gameState (run es s) = Running
               \<and> timeLeft (run es s) = TIME_PER_ROUND - int (count_list es Tick)
               \<and> score (run es s) = score s)
            \<and> (20 \<le> count_list es Tick \<longrightarrow>
               gameState (run es s) = Ended \<and> timeLeft (run es s) = TIME_PER_ROUND
               \<and> score (run es s) = score s \<and> correctWords (run es s) = correctWords s
               \<and> (images s \<noteq> [] \<and> correctWords s \<noteq> [] \<longrightarrow>
                    infoPanel (run es s) = RoundOverPanel (score s) (correctWords s)))"
      using inv
      by (auto simp: afterTicks_def infoPanel_def isGameRunning_def isLoading_def isGameEnded_def)
  qed
qed

theorem timeout_after_twenty_ticks_witness:
  "gameState (handle Tick (run (exampleRound @ replicate 19 Tick) initialGame)) = Ended
   \<and> gameState (run (replicate 20 Tick) (run exampleRound initialGame)) = Ended
   \<and> score (run (replicate 20 Tick) (run exampleRound initialGame)) = 0
   \<and> infoPanel (run (replicate 20 Tick) (run exampleRound initialGame))
       = RoundOverPanel 0 [''eagle'', ''banana'']
   \<and> timeLeft (run (replicate 3 Tick) (run (replicate 20 Tick) (run exampleRound initialGame)))
       = timeLeft (run (replicate 20 Tick) (run exampleRound initialGame))
   \<and> gameState (run guessesAndTicks (run exampleRound initialGame)) = Ended
   \<and> timeLeft (run guessesAndTicks (run exampleRound initialGame)) = 20
   \<and> score (run guessesAndTicks (run exampleRound initialGame)) = 0"
proof -
  let ?s = "run exampleRound initialGame"
  let ?u = "run (exampleRound @ replicate 19 Tick) initialGame"
  have r: "rendered ?s" by code_simp
  have g: "gameState ?s = Running" by code_simp
  have i: "0 < intervals ?s" by code_simp
  have t: "timeLeft ?s = TIME_PER_ROUND" by code_simp
  have sc: "score ?s = 0" by code_simp
  have cw: "correctWords ?s = [''eagle'', ''banana'']" by code_simp
  have im: "images ?s \<noteq> []" by code_simp
  have r': "rendered ?u" by code_simp
  have g': "gameState ?u = Running" by code_simp
  have i': "0 < intervals ?u" by code_simp
  have t': "timeLeft ?u - 1 \<le> 0" by code_simp
  have q: "\<forall>e\<in>set guessesAndTicks. wrongGuess e \<or> e = Tick" by code_simp
  have c: "count_list guessesAndTicks Tick = 21" by code_simp
  have twenty: "TIME_PER_ROUND = 20" by (simp add: TIME_PER_ROUND_def)
  have first: "gameState (handle Tick ?u) = Ended"
    using timeout_after_twenty_ticks [OF r' g' i'] t' by blast
  have rest: "gameState (run (replicate 20 Tick) ?s) = Ended
      \<and> score (run (replicate 20 Tick) ?s) = 0
      \<and> infoPanel (run (replicate 20 Tick) ?s) = RoundOverPanel 0 [''eagle'', ''banana'']
      \<and> timeLeft (run (replicate 3 Tick) (run (replicate 20 Tick) ?s))
          = timeLeft (run (replicate 20 Tick) ?s)"
    using timeout_after_twenty_ticks [OF r g i, of "[]"] t sc cw im by simp
  have mixed: "gameState (run guessesAndTicks ?s) = Ended
      \<and> timeLeft (run guessesAndTicks ?s) = 20 \<and> score (run guessesAndTicks ?s) = 0"
    using timeout_after_twenty_ticks [OF r g i, of guessesAndTicks] t q c sc twenty by simp
  from first rest mixed show ?thesis by blast
qed

subsection \<open>C6: the frames that block the timer\<close>

text \<open>
  C6 as stated fails when no frame is registered. After a payload with an empty frame
  list there are no indices, so every one of them has been marked, yet \<open>allImagesReady\<close>
  is false by its first test (line 112), before and after any mark.
\<close>

theorem preload_barrier_no_frames:
  "images (handle (GenerateSettled (GenerateOk [] [''animal'', ''fruit''] [''eagle'', ''banana'']))
      (handle ClickStart initialGame)) = []
   \<and> loaded (handle (GenerateSettled (GenerateOk [] [''animal'', ''fruit''] [''eagle'', ''banana'']))
      (handle ClickStart initialGame)) = []
   \<and> \<not> allImagesReady
      (handle (GenerateSettled (GenerateOk [] [''animal'', ''fruit''] [''eagle'', ''banana'']))
        (handle ClickStart initialGame))
   \<and> \<not> allImagesReady (handle (ImageLoad 0)
      (handle (GenerateSettled (GenerateOk [] [''animal'', ''fruit''] [''eagle'', ''banana'']))
        (handle ClickStart initialGame)))"
  by code_simp

text \<open>
  C6, amended: after a round has registered the frames \<open>imgs\<close> (the loaded marks are
  reset by \<open>startGame\<close>, the frames are stored when the payload arrives) and any
  sequence of load and error events for indices of these frames, \<open>allImagesReady\<close> holds
  if and only if there is at least one frame and every index of a frame has been marked
  by a load or an error event. An error event leaves the same state as a load event but
  for the message on the console. Marking an index again changes nothing: a second load
  event leaves the whole state as it is, and a second error event leaves the loaded marks
  as they are.
\<close>

theorem preload_barrier:
  assumes "s = handle (GenerateSettled (GenerateOk imgs cs ws)) (handle ClickStart s0)"
    and "\<forall>e\<in>set es. \<exists>i<length imgs. e = ImageLoad i \<or> e = ImageError i"
  shows "images s = imgs \<and> loaded s = []
       \<and> (allImagesReady (run es s) \<longleftrightarrow>
            imgs \<noteq> [] \<and> (\<forall>i<length imgs. ImageLoad i \<in> set es \<or> ImageError i \<in> set es))
       \<and> handle (ImageError j) t
           = (handle (ImageLoad j) t)\<lparr>console := console t @ [FailedToLoadImage j]\<rparr>
       \<and> allImagesReady (handle (ImageError j) t) = allImagesReady (handle (ImageLoad j) t)
       \<and> handle (ImageLoad j) (handle (ImageLoad j) t) = handle (ImageLoad j) t
       \<and> handle (ImageLoad j) (handle (ImageError j) t) = handle (ImageError j) t
       \<and> loaded (handle (ImageError j) (handle (ImageLoad j) t)) = loaded (handle (ImageLoad j) t)
       \<and> loaded (handle (ImageError j) (handle (ImageError j) t)) = loaded (handle (ImageError j) t)"
proof -
  have reg: "images s = imgs" "loaded s = []"
    by (simp_all add: assms(1) handle.simps rerender_fields startGame_resume_def fetchImage_def
        startGame_begin_def updateCategories_def updateCorrectWords_def incrementRounds_def Let_def)
  have marks: "\<forall>e\<in>set es. \<exists>i. e = ImageLoad i \<or> e = ImageError i"
    using assms(2) by blast
  note inv = run_marks [OF marks, of s, unfolded reg, simplified]
  have sub: "fst ` set (loaded (run es s)) \<subseteq> {..<length (images (run es s))}"
    using inv assms(2) by auto
  have ready: "allImagesReady (run es s) \<longleftrightarrow>
            imgs \<noteq> [] \<and> (\<forall>i<length imgs. ImageLoad i \<in> set es \<or> ImageError i \<in> set es)"
    using allImagesReady_card [of "run es s"] inv sub by auto
  have err: "handle (ImageError j) t
           = (handle (ImageLoad j) t)\<lparr>console := console t @ [FailedToLoadImage j]\<rparr>"
    by (cases t) (simp add: handle.simps handleImageLoad_def handleImageError_def rerender_def
        timerEffect_def isGameRunning_def allImagesReady_def Let_def)
  have same: "allImagesReady (handle (ImageError j) t) = allImagesReady (handle (ImageLoad j) t)"
    by (simp add: allImagesReady_def mark_loaded)
  have body1: "handleImageLoad j (handle (ImageLoad j) t) = handle (ImageLoad j) t"
    by (simp add: handleImageLoad_def mark_loaded)
  have body2: "handleImageLoad j (handle (ImageError j) t) = handle (ImageError j) t"
    by (simp add: handleImageLoad_def mark_loaded)
  have r1: "rendered (handle (ImageLoad j) t)" and r2: "rendered (handle (ImageError j) t)"
    by (simp_all add: handle.simps rerender_rendered)
  have idem1: "handle (ImageLoad j) (handle (ImageLoad j) t) = handle (ImageLoad j) t"
    using rerender_same [OF r1] by (simp add: handle.simps(3) [of j "handle (ImageLoad j) t"] body1)
  have idem2: "handle (ImageLoad j) (handle (ImageError j) t) = handle (ImageError j) t"
    using rerender_same [OF r2] by (simp add: handle.simps(3) [of j "handle (ImageError j) t"] body2)
  have idem3: "loaded (handle (ImageError j) (handle (ImageLoad j) t)) = loaded (handle (ImageLoad j) t)"
    "loaded (handle (ImageError j) (handle (ImageError j) t)) = loaded (handle (ImageError j) t)"
    by (simp_all add: mark_loaded)
  show ?thesis
    by (intro conjI reg ready err same idem1 idem2 idem3)
qed

theorem preload_barrier_witness:
  "allImagesReady (run (map ImageLoad [0..<5] @ map ImageError [5..<10])
      (handle (GenerateSettled examplePayload) (handle ClickStart initialGame)))
   \<and> \<not> allImagesReady (run (map ImageLoad [0..<5] @ map ImageError [5..<9])
      (handle (GenerateSettled examplePayload) (handle ClickStart initialGame)))
   \<and> handle (ImageLoad 3) (handle (ImageLoad 3) initialGame) = handle (ImageLoad 3) initialGame"
proof -
  let ?imgs = "replicate 10 ''frame.png''"
  let ?s = "handle (GenerateSettled examplePayload) (handle ClickStart initialGame)"
  let ?all = "map ImageLoad [0..<5] @ map ImageError [5..<10]"
  let ?fewer = "map ImageLoad [0..<5] @ map ImageError [5..<9]"
  have s: "?s = handle (GenerateSettled (GenerateOk ?imgs [''animal'', ''fruit''] [''eagle'', ''banana'']))
      (handle ClickStart initialGame)"
    by (simp add: examplePayload_def)
  have in_all: "\<forall>e\<in>set ?all. \<exists>i<length ?imgs. e = ImageLoad i \<or> e = ImageError i"
    by auto
  have in_fewer: "\<forall>e\<in>set ?fewer. \<exists>i<length ?imgs. e = ImageLoad i \<or> e = ImageError i"
    by auto
  have every: "\<forall>i<length ?imgs. ImageLoad i \<in> set ?all \<or> ImageError i \<in> set ?all"
    by auto
  have missing: "\<not> (\<forall>i<length ?imgs. ImageLoad i \<in> set ?fewer \<or> ImageError i \<in> set ?fewer)"
    by (auto intro!: exI [of _ 9])
  have ne: "?imgs \<noteq> []" by simp
  from preload_barrier [OF s in_all, of 3 initialGame] every ne
  have a: "allImagesReady (run ?all ?s)"
    and c: "handle (ImageLoad 3) (handle (ImageLoad 3) initialGame) = handle (ImageLoad 3) initialGame"
    by blast+
  from preload_barrier [OF s in_fewer, of 3 initialGame] missing
  have b: "\<not> allImagesReady (run ?fewer ?s)"
    by blast
  from a b c show ?thesis by blast
qed

subsection \<open>C7: failure of the request for a round\<close>

text \<open>
  C7 as stated fails: when the request to \<open>/api/generate\<close> fails the game stays in
  \<open>Loading\<close>; it does not return to \<open>Initial\<close>. A payload that was decoded is never
  taken for a failure, whatever its shape: after a payload with an empty frame list, and
  after one with a single frame, a single category and no correct word, the game is
  \<open>Running\<close> and nothing is logged.
\<close>

theorem generate_failure_example:
  "gameState (run [ClickStart] initialGame) = Loading
   \<and> gameState (run [ClickStart, GenerateSettled GenerateFailure] initialGame) = Loading
   \<and> gameState (run [ClickStart, GenerateSettled GenerateFailure] initialGame) \<noteq> Initial
   \<and> gameState (run [ClickStart, GenerateSettled (GenerateOk [] [] [])] initialGame) = Running
   \<and> gameState (run [ClickStart, GenerateSettled (GenerateOk [''frame.png''] [''animal''] [])]
        initialGame) = Running
   \<and> console (run [ClickStart, GenerateSettled (GenerateOk [''frame.png''] [''animal''] [])]
        initialGame) = []"
  by code_simp

text \<open>
  C7, amended: when the request for a round or the decoding of its answer throws while
  the game is loading, \<open>fetchImage\<close> logs the error and throws it again, so the promise
  of \<open>startGame\<close> is rejected; the state is unchanged but for the console message: the
  game stays in \<open>Loading\<close> and the start button stays disabled. The round counter
  incremented by \<open>startGame\<close> stays incremented. A decoded payload is not a failure,
  whatever the lengths of its three lists: the game becomes \<open>Running\<close> and nothing is
  logged. After a payload with an empty frame list, and for as long as no other payload
  arrives, the frame list stays empty, the frames are not all ready and no timer is
  created: whatever else happens, the number of timers alive does not grow. A timer that
  an earlier round left alive is not cleared by the new round: in the second example
  below it fires in the round without frames and times it out.
\<close>

theorem generate_failure_stays_loading:
  assumes "rendered s" "gameState s = Loading"
  shows "startGame_resume GenerateFailure s
           = (Rejected, s\<lparr>console := console s @ [ErrorFetchingImage]\<rparr>)
       \<and> handle (GenerateSettled GenerateFailure) s
           = s\<lparr>console := console s @ [ErrorFetchingImage]\<rparr>
       \<and> gameState (handle (GenerateSettled GenerateFailure) s) = Loading
       \<and> startButtonDisabled (handle (GenerateSettled GenerateFailure) s)
       \<and> numRounds (handle (GenerateSettled GenerateFailure) (handle ClickStart s0)) = numRounds s0 + 1
       \<and> gameState (handle (GenerateSettled GenerateFailure) (handle ClickStart s0)) = Loading
       \<and> gameState (handle (GenerateSettled (GenerateOk imgs cs ws)) s) = Running
       \<and> console (handle (GenerateSettled (GenerateOk imgs cs ws)) s) = console s
       \<and> gameState (handle (GenerateSettled (GenerateOk [] cs ws)) s) = Running
       \<and> \<not> allImagesReady (handle (GenerateSettled (GenerateOk [] cs ws)) s)
       \<and> intervals (handle (GenerateSettled (GenerateOk [] cs ws)) s) = intervals s
       \<and> ((\<forall>r. GenerateSettled r \<notin> set es) \<longrightarrow>
            images (run es (handle (GenerateSettled (GenerateOk [] cs ws)) s)) = []
            \<and> \<not> allImagesReady (run es (handle (GenerateSettled (GenerateOk [] cs ws)) s))
            \<and> intervals (run es (handle (GenerateSettled (GenerateOk [] cs ws)) s)) \<le> intervals s)"
proof -
  have res: "startGame_resume GenerateFailure s
           = (Rejected, s\<lparr>console := console s @ [ErrorFetchingImage]\<rparr>)"
    by (simp add: start_defs)
  have eq: "handle (GenerateSettled GenerateFailure) s
           = s\<lparr>console := console s @ [ErrorFetchingImage]\<rparr>"
    using assms(1) by (simp add: handle.simps res rerender_console)
  have st: "gameState (handle (GenerateSettled GenerateFailure) s) = Loading"
    using assms(2) by (simp add: eq)
  have dis: "startButtonDisabled (handle (GenerateSettled GenerateFailure) s)"
    using assms(2) by (simp add: eq startButtonDisabled_def isLoading_def)
  have n: "numRounds (handle (GenerateSettled GenerateFailure) (handle ClickStart s0)) = numRounds s0 + 1"
    by (simp add: handle.simps rerender_fields start_defs Let_def)
  have l: "gameState (handle (GenerateSettled GenerateFailure) (handle ClickStart s0)) = Loading"
    by (simp add: handle.simps rerender_fields start_defs Let_def)
  have a1: "gameState (handle (GenerateSettled (GenerateOk imgs cs ws)) s) = Running"
    by (simp add: handle.simps rerender_fields start_defs)
  have a2: "console (handle (GenerateSettled (GenerateOk imgs cs ws)) s) = console s"
    by (simp add: handle.simps rerender_fields start_defs)
  have e1: "gameState (handle (GenerateSettled (GenerateOk [] cs ws)) s) = Running"
    by (simp add: handle.simps rerender_fields start_defs)
  have e2: "\<not> allImagesReady (handle (GenerateSettled (GenerateOk [] cs ws)) s)"
    by (simp add: handle.simps rerender_fields start_defs allImagesReady_def)
  have e3: "intervals (handle (GenerateSettled (GenerateOk [] cs ws)) s) = intervals s"
    by (simp add: handle.simps rerender_def timerEffect_def start_defs allImagesReady_def Let_def)
  let ?E = "handle (GenerateSettled (GenerateOk [] cs ws)) s"
  have im: "images ?E = []"
    by (simp add: handle.simps rerender_fields start_defs)
  have e4: "(\<forall>r. GenerateSettled r \<notin> set es) \<longrightarrow>
            images (run es ?E) = [] \<and> \<not> allImagesReady (run es ?E)
            \<and> intervals (run es ?E) \<le> intervals s"
  proof
    assume "\<forall>r. GenerateSettled r \<notin> set es"
    from no_frames_run [OF im this]
    have "images (run es ?E) = []" "intervals (run es ?E) \<le> intervals s"
      by (simp_all add: e3)
    then show "images (run es ?E) = [] \<and> \<not> allImagesReady (run es ?E)
            \<and> intervals (run es ?E) \<le> intervals s"
      by (simp add: allImagesReady_def)
  qed
  show ?thesis
    by (intro conjI res eq st dis n l a1 a2 e1 e2 e3 e4)
qed

theorem generate_failure_stays_loading_witness:
  "gameState (handle (GenerateSettled GenerateFailure) (handle ClickStart initialGame)) = Loading
   \<and> startButtonDisabled (handle (GenerateSettled GenerateFailure) (handle ClickStart initialGame))
   \<and> console (handle (GenerateSettled GenerateFailure) (handle ClickStart initialGame))
       = [ErrorFetchingImage]
   \<and> \<not> allImagesReady (run [ImageLoad 0, ImageError 1, ChangeGuess ''eagle'', Submit, Tick]
         (handle (GenerateSettled (GenerateOk [] [] [])) (handle ClickStart initialGame)))
   \<and> intervals (run [ImageLoad 0, ImageError 1, ChangeGuess ''eagle'', Submit, Tick]
         (handle (GenerateSettled (GenerateOk [] [] [])) (handle ClickStart initialGame))) = 0
   \<and> intervals (run (exampleRound @ [ClickStop, ClickStart]) initialGame) = 1
   \<and> intervals (run (replicate 20 Tick) (handle (GenerateSettled (GenerateOk [] [] []))
         (run (exampleRound @ [ClickStop, ClickStart]) initialGame))) \<le> 1
   \<and> gameState (run (replicate 20 Tick) (handle (GenerateSettled (GenerateOk [] [] []))
         (run (exampleRound @ [ClickStop, ClickStart]) initialGame))) = Ended"
proof -
  let ?s = "handle ClickStart initialGame"
  let ?es = "[ImageLoad 0, ImageError 1, ChangeGuess ''eagle'', Submit, Tick]"
  let ?u = "run (exampleRound @ [ClickStop, ClickStart]) initialGame"
  have r: "rendered ?s" by code_simp
  have g: "gameState ?s = Loading" by code_simp
  have c: "console ?s = []" by code_simp
  have i: "intervals ?s = 0" by code_simp
  have q: "\<forall>r. GenerateSettled r \<notin> set ?es" by simp
  note th = generate_failure_stays_loading [OF r g, of initialGame "[]" "[]" "[]" ?es]
  from th have a: "gameState (handle (GenerateSettled GenerateFailure) ?s) = Loading"
    and b: "startButtonDisabled (handle (GenerateSettled GenerateFailure) ?s)"
    and e: "handle (GenerateSettled GenerateFailure) ?s
           = ?s\<lparr>console := console ?s @ [ErrorFetchingImage]\<rparr>"
    and f: "(\<forall>r. GenerateSettled r \<notin> set ?es) \<longrightarrow>
            images (run ?es (handle (GenerateSettled (GenerateOk [] [] [])) ?s)) = []
            \<and> \<not> allImagesReady (run ?es (handle (GenerateSettled (GenerateOk [] [] [])) ?s))
            \<and> intervals (run ?es (handle (GenerateSettled (GenerateOk [] [] [])) ?s))
                \<le> intervals ?s"
    by blast+
  have e': "console (handle (GenerateSettled GenerateFailure) ?s) = [ErrorFetchingImage]"
    by (simp add: e c)
  from f q have f1: "\<not> allImagesReady (run ?es (handle (GenerateSettled (GenerateOk [] [] [])) ?s))"
    and f2: "intervals (run ?es (handle (GenerateSettled (GenerateOk [] [] [])) ?s)) \<le> intervals ?s"
    by blast+
  from f2 i have f2': "intervals (run ?es (handle (GenerateSettled (GenerateOk [] [] [])) ?s)) = 0"
    by simp
  have r': "rendered ?u" by code_simp
  have g': "gameState ?u = Loading" by code_simp
  have i': "intervals ?u = 1" by code_simp
  have q': "\<forall>r. GenerateSettled r \<notin> set (replicate 20 Tick)" by simp
  note th' = generate_failure_stays_loading [OF r' g', of initialGame "[]" "[]" "[]" "replicate 20 Tick"]
  from th' have h: "(\<forall>r. GenerateSettled r \<notin> set (replicate 20 Tick)) \<longrightarrow>
            images (run (replicate 20 Tick) (handle (GenerateSettled (GenerateOk [] [] [])) ?u)) = []
            \<and> \<not> allImagesReady (run (replicate 20 Tick) (handle (GenerateSettled (GenerateOk [] [] [])) ?u))
            \<and> intervals (run (replicate 20 Tick) (handle (GenerateSettled (GenerateOk [] [] [])) ?u))
                \<le> intervals ?u"
    by blast
  from h q' i' have h': "intervals (run (replicate 20 Tick)
       (handle (GenerateSettled (GenerateOk [] [] [])) ?u)) \<le> 1"
    by simp
  have k: "gameState (run (replicate 20 Tick)
       (handle (GenerateSettled (GenerateOk [] [] [])) ?u)) = Ended"
    by code_simp
  show ?thesis
    by (intro conjI a b e' f1 f2' i' h' k)
qed

subsection \<open>C8: failure of the evaluation\<close>

text \<open>
  C8 as stated fails: when the request to \<open>/api/evaluate\<close> fails, the promise of
  \<open>checkAnswer\<close> is fulfilled, not rejected, and what the component shows is unchanged:
  the failure reaches the console only.
\<close>

theorem evaluate_failure_example:
  "fst (checkAnswer EvaluateFailure (run exampleRound initialGame)) = Fulfilled
   \<and> fst (checkAnswer EvaluateFailure (run exampleRound initialGame)) \<noteq> Rejected
   \<and> infoPanel (handle (EvaluateSettled EvaluateFailure) (run exampleRound initialGame))
       = infoPanel (run exampleRound initialGame)
   \<and> handle (EvaluateSettled EvaluateFailure) (run exampleRound initialGame)
       = (run exampleRound initialGame)\<lparr>console := [ErrorCheckingAnswer]\<rparr>"
  by code_simp

text \<open>
  C8, amended: when the evaluation fails while the round is running, \<open>checkAnswer\<close>
  catches the error and logs it to the console; its promise is fulfilled and no error
  reaches the caller. The state is unchanged but for the console message: the round is
  still running, the panel is the same, the typed guess is kept, and submitting again
  sends the same request as it would have before.
\<close>

theorem evaluate_failure_only_logged:
  assumes "rendered s" "gameState s = Running"
  shows "checkAnswer EvaluateFailure s
           = (Fulfilled, s\<lparr>console := console s @ [ErrorCheckingAnswer]\<rparr>)
       \<and> handle (EvaluateSettled EvaluateFailure) s
           = s\<lparr>console := console s @ [ErrorCheckingAnswer]\<rparr>
       \<and> gameState (handle (EvaluateSettled EvaluateFailure) s) = Running
       \<and> infoPanel (handle (EvaluateSettled EvaluateFailure) s) = infoPanel s
       \<and> guess (handle (EvaluateSettled EvaluateFailure) s) = guess s
       \<and> evaluateCalls (handle Submit (handle (EvaluateSettled EvaluateFailure) s))
           = evaluateCalls (handle Submit s)"
proof -
  have res: "checkAnswer EvaluateFailure s
           = (Fulfilled, s\<lparr>console := console s @ [ErrorCheckingAnswer]\<rparr>)"
    by (simp add: checkAnswer_def)
  have eq: "handle (EvaluateSettled EvaluateFailure) s
           = s\<lparr>console := console s @ [ErrorCheckingAnswer]\<rparr>"
    using assms(1) by (simp add: handle.simps res rerender_console)
  have st: "gameState (handle (EvaluateSettled EvaluateFailure) s) = Running"
    using assms(2) by (simp add: eq)
  have pan: "infoPanel (handle (EvaluateSettled EvaluateFailure) s) = infoPanel s"
    by (simp add: eq infoPanel_def isGameRunning_def isLoading_def isGameEnded_def)
  have typed: "guess (handle (EvaluateSettled EvaluateFailure) s) = guess s"
    by (simp add: eq)
  have again: "evaluateCalls (handle Submit (handle (EvaluateSettled EvaluateFailure) s))
           = evaluateCalls (handle Submit s)"
    using assms(2) unfolding eq
    by (simp add: handle.simps handleAction_def isGameRunning_def checkAnswer_begin_def Let_def)
  show ?thesis
    by (intro conjI res eq st pan typed again)
qed

theorem evaluate_failure_only_logged_witness:
  "gameState (handle (EvaluateSettled EvaluateFailure)
      (run (exampleRound @ [ChangeGuess ''eagle banana'', Submit]) initialGame)) = Running
   \<and> console (handle (EvaluateSettled EvaluateFailure)
      (run (exampleRound @ [ChangeGuess ''eagle banana'', Submit]) initialGame))
       = [ErrorCheckingAnswer]
   \<and> evaluateCalls (handle Submit (handle (EvaluateSettled EvaluateFailure)
      (run (exampleRound @ [ChangeGuess ''eagle banana'', Submit]) initialGame)))
       = [(''eagle banana'', ''eagle banana''), (''eagle banana'', ''eagle banana'')]"
proof -
  let ?s = "run (exampleRound @ [ChangeGuess ''eagle banana'', Submit]) initialGame"
  have r: "rendered ?s" by code_simp
  have g: "gameState ?s = Running" by code_simp
  have c: "console ?s = []" by code_simp
  have q: "evaluateCalls (handle Submit ?s)
      = [(''eagle banana'', ''eagle banana''), (''eagle banana'', ''eagle banana'')]"
    by code_simp
  from evaluate_failure_only_logged [OF r g]
  have a: "gameState (handle (EvaluateSettled EvaluateFailure) ?s) = Running"
    and b: "evaluateCalls (handle Submit (handle (EvaluateSettled EvaluateFailure) ?s))
       = evaluateCalls (handle Submit ?s)"
    and e: "handle (EvaluateSettled EvaluateFailure) ?s
       = ?s\<lparr>console := console ?s @ [ErrorCheckingAnswer]\<rparr>"
    by blast+
  have "console (handle (EvaluateSettled EvaluateFailure) ?s) = [ErrorCheckingAnswer]"
    by (simp add: e c)
  with a b q show ?thesis
    by simp
qed

subsection \<open>C9: when a guess is accepted\<close>

text \<open>
  C9 as stated fails in the phase in which the game is running and not all frames are
  loaded: no timer exists, yet the submitted guess is sent to the evaluator, and a
  positive answer adds \<open>20 * 10\<close> to the score and ends the round.
\<close>

theorem guess_before_preload_example:
  "gameState (run [ClickStart, GenerateSettled examplePayload, ChangeGuess ''eagle banana'']
      initialGame) = Running
   \<and> \<not> allImagesReady (run [ClickStart, GenerateSettled examplePayload,
      ChangeGuess ''eagle banana''] initialGame)
   \<and> intervals (run [ClickStart, GenerateSettled examplePayload, ChangeGuess ''eagle banana'']
      initialGame) = 0
   \<and> evaluateCalls (run [ClickStart, GenerateSettled examplePayload, ChangeGuess ''eagle banana'']
      initialGame) = []
   \<and> evaluateCalls (run [ClickStart, GenerateSettled examplePayload, ChangeGuess ''eagle banana'',
      Submit] initialGame) = [(''eagle banana'', ''eagle banana'')]
   \<and> score (run [ClickStart, GenerateSettled examplePayload, ChangeGuess ''eagle banana'',
      Submit] initialGame) = 0
   \<and> score (run [ClickStart, GenerateSettled examplePayload, ChangeGuess ''eagle banana'',
      Submit, EvaluateSettled (EvaluateOk 1)] initialGame) = 200
   \<and> gameState (run [ClickStart, GenerateSettled examplePayload, ChangeGuess ''eagle banana'',
      Submit, EvaluateSettled (EvaluateOk 1)] initialGame) = Ended"
  by code_simp

text \<open>
  C9, amended: a submitted guess is sent to the evaluator exactly when the game is
  running, whether or not all frames are loaded: the request with the answer and the
  guess is added to the calls and nothing else changes. In \<open>Initial\<close>, \<open>Loading\<close> and
  \<open>Ended\<close> a submission sends no request and changes no state.
\<close>

theorem guess_accepted_while_running:
  "(gameState s = Running \<longrightarrow>
      handleAction g s
        = s\<lparr>evaluateCalls := evaluateCalls s
             @ [(wordAt (correctWords s) 0 @ '' '' @ wordAt (correctWords s) 1, g)]\<rparr>
      \<and> handle Submit s = handleAction (guess s) s)
   \<and> (gameState s = Initial \<or> gameState s = Loading \<or> gameState s = Ended \<longrightarrow>
      handleAction g s = s \<and> handle Submit s = s)"
proof (intro conjI impI)
  assume "gameState s = Running"
  then show "handleAction g s
        = s\<lparr>evaluateCalls := evaluateCalls s
             @ [(wordAt (correctWords s) 0 @ '' '' @ wordAt (correctWords s) 1, g)]\<rparr>"
    by (simp add: handleAction_def checkAnswer_begin_def isGameRunning_def Let_def)
  show "handle Submit s = handleAction (guess s) s"
    by (simp add: handle.simps)
next
  assume other: "gameState s = Initial \<or> gameState s = Loading \<or> gameState s = Ended"
  then have "gameState s \<noteq> Running"
    by auto
  then show "handleAction g s = s" and "handle Submit s = s"
    by (simp_all add: handle.simps handleAction_def isGameRunning_def)
qed

theorem guess_accepted_while_running_witness:
  "evaluateCalls (handle Submit
      (run [ClickStart, GenerateSettled examplePayload, ChangeGuess ''eagle banana''] initialGame))
     = [(''eagle banana'', ''eagle banana'')]
   \<and> handle Submit initialGame = initialGame
   \<and> handle Submit (run [ClickStart] initialGame) = run [ClickStart] initialGame
   \<and> handle Submit (run (exampleRound @ [ClickStop]) initialGame)
       = run (exampleRound @ [ClickStop]) initialGame"
proof -
  let ?a = "run [ClickStart, GenerateSettled examplePayload, ChangeGuess ''eagle banana''] initialGame"
  let ?l = "run [ClickStart] initialGame"
  let ?e = "run (exampleRound @ [ClickStop]) initialGame"
  have a: "gameState ?a = Running" by code_simp
  have w: "wordAt (correctWords ?a) 0 @ '' '' @ wordAt (correctWords ?a) 1 = ''eagle banana''"
    by code_simp
  have c: "evaluateCalls ?a = []" and gs: "guess ?a = ''eagle banana''" by code_simp+
  have i: "gameState initialGame = Initial" by code_simp
  have l: "gameState ?l = Loading" by code_simp
  have e: "gameState ?e = Ended" by code_simp
  from guess_accepted_while_running [of ?a "''eagle banana''"] a
  have h1: "handleAction ''eagle banana'' ?a
      = ?a\<lparr>evaluateCalls := evaluateCalls ?a
           @ [(wordAt (correctWords ?a) 0 @ '' '' @ wordAt (correctWords ?a) 1, ''eagle banana'')]\<rparr>"
    and h2: "handle Submit ?a = handleAction (guess ?a) ?a"
    by blast+
  have "evaluateCalls (handleAction ''eagle banana'' ?a) = [(''eagle banana'', ''eagle banana'')]"
    unfolding h1 using w c by simp
  then have 1: "evaluateCalls (handle Submit ?a) = [(''eagle banana'', ''eagle banana'')]"
    unfolding h2 gs .
  from guess_accepted_while_running [of initialGame "[]"] i
  have 2: "handle Submit initialGame = initialGame" by blast
  from guess_accepted_while_running [of ?l "[]"] l
  have 3: "handle Submit ?l = ?l" by blast
  from guess_accepted_while_running [of ?e "[]"] e
  have 4: "handle Submit ?e = ?e" by blast
  from 1 2 3 4 show ?thesis by blast
qed

subsection \<open>C10: the time left after a timeout\<close>

text \<open>
  C10: the tick that ends a running round stores \<open>TIME_PER_ROUND\<close>, which is 20, as
  the time left. It does so in a rendered running round with a live timer whenever the
  decrement would reach 0, and whenever a tick takes a round from \<open>Running\<close> to
  \<open>Ended\<close> the time left is \<open>TIME_PER_ROUND\<close> afterwards.
\<close>

theorem timeout_resets_time_left:
  "(rendered s \<and> gameState s = Running \<and> 0 < intervals s \<and> timeLeft s - 1 \<le> 0 \<longrightarrow>
      gameState (handle Tick s) = Ended \<and> timeLeft (handle Tick s) = TIME_PER_ROUND)
   \<and> (gameState s = Running \<and> gameState (handle Tick s) = Ended \<longrightarrow>
      timeLeft (handle Tick s) = TIME_PER_ROUND)
   \<and> TIME_PER_ROUND = 20"
proof (intro conjI impI)
  assume a: "rendered s \<and> gameState s = Running \<and> 0 < intervals s \<and> timeLeft s - 1 \<le> 0"
  then have eq: "handle Tick s = s\<lparr>gameState := Ended, timeLeft := TIME_PER_ROUND,
            timeLeftRef := TIME_PER_ROUND, isGameRunningRef := False, intervals := intervals s - 1,
            currentImageIndex := newImageIndex (TIME_PER_ROUND - timeLeft s)\<rparr>"
    by (intro tick_running_last) simp_all
  show "gameState (handle Tick s) = Ended" by (simp add: eq)
  show "timeLeft (handle Tick s) = TIME_PER_ROUND" by (simp add: eq)
next
  assume "gameState s = Running \<and> gameState (handle Tick s) = Ended"
  then show "timeLeft (handle Tick s) = TIME_PER_ROUND"
    by (auto simp: handle.simps rerender_def timerEffect_def intervalCallback_def
        timeLeftUpdater_def stopGame_def isGameRunning_def Let_def split: if_splits)
next
  show "TIME_PER_ROUND = 20" by (simp add: TIME_PER_ROUND_def)
qed

theorem timeout_resets_time_left_witness:
  "gameState (run (exampleRound @ replicate 19 Tick) initialGame) = Running
   \<and> timeLeft (run (exampleRound @ replicate 19 Tick) initialGame) = 1
   \<and> gameState (handle Tick (run (exampleRound @ replicate 19 Tick) initialGame)) = Ended
   \<and> timeLeft (handle Tick (run (exampleRound @ replicate 19 Tick) initialGame)) = 20"
proof -
  let ?u = "run (exampleRound @ replicate 19 Tick) initialGame"
  have r: "rendered ?u" by code_simp
  have g: "gameState ?u = Running" by code_simp
  have i: "0 < intervals ?u" by code_simp
  have t: "timeLeft ?u = 1" by code_simp
  show ?thesis
    using timeout_resets_time_left [of ?u] r g i t by simp
qed

end
